theory Spec2Isabelle
  imports Main "HOL-Library.Char_ord" "HOL-Library.Sublist"
begin

section \<open>Data model (internal/analyzer.go, lines 10--33)\<close>

text \<open>
  The Go struct \<^verbatim>\<open>SecurityHeader\<close>. Go's \<^verbatim>\<open>int\<close> is modelled by \<^typ>\<open>int\<close>: every
  number the analysis computes lies between 0 and 7700 (the sum of the catalog weights
  times 70), far from the bounds of a machine integer, so no wrap-around can occur.
  A nil slice and an empty slice are both the empty list.
\<close>

record SecurityHeader =
  Name :: string
  Present :: bool
  Description :: string
  Weight :: int
  Aliases :: "string list"

text \<open>The Go struct \<^verbatim>\<open>AnalysisResult\<close>; the Go map is a partial function.\<close>

record AnalysisResult =
  Headers :: "string \<rightharpoonup> bool"
  Score :: int
  Grade :: string
  Summary :: "SecurityHeader list"
  URL :: string

datatype SecurityHeaderTier = Critical | Important | Recommended

section \<open>The catalog (lines 35--83)\<close>

definition securityHeaders :: "SecurityHeader list" where
  "securityHeaders =
    [\<lparr>Name = ''Strict-Transport-Security'', Present = False,
      Description = ''Forces HTTPS connections to protect against man-in-the-middle attacks.'',
      Weight = 20, Aliases = []\<rparr>,
     \<lparr>Name = ''X-Content-Type-Options'', Present = False,
      Description = ''Prevents MIME-sniffing attacks by enforcing declared content types.'',
      Weight = 15, Aliases = []\<rparr>,
     \<lparr>Name = ''X-Frame-Options'', Present = False,
      Description = ''Protects against clickjacking by controlling iframe embedding.'',
      Weight = 15, Aliases = []\<rparr>,
     \<lparr>Name = ''Content-Security-Policy'', Present = False,
      Description = ''Helps prevent XSS attacks by defining allowed content sources.'',
      Weight = 20, Aliases = [''Content-Security-Policy-Report-Only'']\<rparr>,
     \<lparr>Name = ''Referrer-Policy'', Present = False,
      Description = ''Controls how much referrer information is shared with requests.'',
      Weight = 15, Aliases = []\<rparr>,
     \<lparr>Name = ''Permissions-Policy'', Present = False,
      Description = ''Controls which browser features and APIs can be used.'',
      Weight = 10, Aliases = [''Feature-Policy'']\<rparr>,
     \<lparr>Name = ''Cross-Origin-Opener-Policy'', Present = False,
      Description = ''Prevents cross-origin attacks by isolating browsing context.'',
      Weight = 8, Aliases = []\<rparr>,
     \<lparr>Name = ''Cross-Origin-Resource-Policy'', Present = False,
      Description = ''Protects resources from being loaded by other origins.'',
      Weight = 7, Aliases = []\<rparr>]"

section \<open>The Go standard library, as far as the analysis rests on it\<close>

subsection \<open>strings.HasPrefix\<close>

text \<open>
  \<^verbatim>\<open>func HasPrefix(s, prefix string) bool {
    return len(s) >= len(prefix) && s[:len(prefix)] == prefix }\<close>
  A Go string is a sequence of bytes, as \<^typ>\<open>string\<close> is.
\<close>

definition HasPrefix :: "string \<Rightarrow> string \<Rightarrow> bool" where
  "HasPrefix s pre = (length pre \<le> length s \<and> take (length pre) s = pre)"

subsection \<open>Integer division\<close>

text \<open>Go's \<^verbatim>\<open>/\<close> on \<^verbatim>\<open>int\<close> truncates toward zero.\<close>

definition go_quot :: "int \<Rightarrow> int \<Rightarrow> int" where
  "go_quot a b = (if (a < 0) = (b < 0) then \<bar>a\<bar> div \<bar>b\<bar> else - (\<bar>a\<bar> div \<bar>b\<bar>))"

subsection \<open>net/textproto: canonical header keys\<close>

text \<open>
  \<^verbatim>\<open>http.Header.Get\<close> canonicalises the key it is asked for with
  \<^verbatim>\<open>textproto.CanonicalMIMEHeaderKey\<close>: the first letter and every letter after a
  hyphen in upper case, every other letter in lower case; a key holding a byte that is
  no header field byte is left as it is. The functions below follow
  \<^verbatim>\<open>net/textproto/reader.go\<close>. A byte is a \<^typ>\<open>char\<close>, compared by its code.
\<close>

definition isLowerAZ :: "char \<Rightarrow> bool" where
  "isLowerAZ c = (CHR ''a'' \<le> c \<and> c \<le> CHR ''z'')"

definition isUpperAZ :: "char \<Rightarrow> bool" where
  "isUpperAZ c = (CHR ''A'' \<le> c \<and> c \<le> CHR ''Z'')"

text \<open>\<^verbatim>\<open>const toLower = 'a' - 'A'\<close>\<close>

definition toLower :: nat where
  "toLower = of_char CHR ''a'' - of_char CHR ''A''"

text \<open>
  \<^verbatim>\<open>validHeaderFieldByte\<close>: the token bytes of RFC 7230, which the Go source keeps in a
  128-bit mask: digits, letters and fifteen punctuation marks (the last one listed here
  is the apostrophe).
\<close>

definition validHeaderFieldByte :: "char \<Rightarrow> bool" where
  "validHeaderFieldByte c =
    ((CHR ''0'' \<le> c \<and> c \<le> CHR ''9'') \<or> isLowerAZ c \<or> isUpperAZ c \<or>
     c \<in> set ''!#$%&*+-.^_`|~'' \<or> c = CHR 0x27)"

text \<open>
  The first loop of \<^verbatim>\<open>canonicalMIMEHeaderKey\<close>: \<open>None\<close> when it meets a byte that is
  neither a field byte nor a space, otherwise the flag \<^verbatim>\<open>noCanon\<close>, set by a space.
\<close>

fun scanKey :: "string \<Rightarrow> bool \<Rightarrow> bool option" where
  "scanKey [] noCanon = Some noCanon"
| "scanKey (c # cs) noCanon =
    (if validHeaderFieldByte c then scanKey cs noCanon
     else if c = CHR '' '' then scanKey cs True
     else None)"

text \<open>The second loop: the byte-wise rewriting, \<^verbatim>\<open>upper\<close> telling what the next byte must be.\<close>

fun canonBytes :: "bool \<Rightarrow> string \<Rightarrow> string" where
  "canonBytes upper [] = []"
| "canonBytes upper (c # cs) =
    (let c' = (if upper \<and> isLowerAZ c then char_of (of_char c - toLower)
               else if \<not> upper \<and> isUpperAZ c then char_of (of_char c + toLower)
               else c)
     in c' # canonBytes (c' = CHR ''-'') cs)"

text \<open>
  \<^verbatim>\<open>canonicalMIMEHeaderKey\<close>: a key with a byte that is no field byte, or with a space,
  is returned unchanged; any other key is rewritten. The Go function returns a flag as
  well, which the exported function drops, and it consults last a table of common
  headers, which only shares storage: it yields a string equal to the one just built.
\<close>

definition canonicalMIMEHeaderKey :: "string \<Rightarrow> string" where
  "canonicalMIMEHeaderKey a =
    (case scanKey a False of
       None \<Rightarrow> a
     | Some noCanon \<Rightarrow> if noCanon then a else canonBytes True a)"

text \<open>
  The exported function first looks whether the key is canonical already; \<open>s\<close> is the
  whole key, the last argument what the loop has still to read.
\<close>

fun canonicalQuickCheck :: "string \<Rightarrow> bool \<Rightarrow> string \<Rightarrow> string" where
  "canonicalQuickCheck s upper [] = s"
| "canonicalQuickCheck s upper (c # cs) =
    (if \<not> validHeaderFieldByte c then s
     else if upper \<and> isLowerAZ c then canonicalMIMEHeaderKey s
     else if \<not> upper \<and> isUpperAZ c then canonicalMIMEHeaderKey s
     else canonicalQuickCheck s (c = CHR ''-'') cs)"

definition CanonicalMIMEHeaderKey :: "string \<Rightarrow> string" where
  "CanonicalMIMEHeaderKey s = canonicalQuickCheck s True s"

subsection \<open>net/http: headers, responses, errors\<close>

text \<open>
  \<^verbatim>\<open>type Header map[string][]string\<close>: under each key, the values of the field lines
  with that name, in the order received. \<^verbatim>\<open>Get\<close> returns the first value stored under
  the canonical form of the key, and the empty string when there is none;
  \<^verbatim>\<open>Values\<close> returns all of them.
\<close>

type_synonym Header = "string \<rightharpoonup> string list"

definition Header_Get :: "Header \<Rightarrow> string \<Rightarrow> string" where
  "Header_Get h key =
    (case h (CanonicalMIMEHeaderKey key) of
       None \<Rightarrow> ''''
     | Some v \<Rightarrow> (case v of [] \<Rightarrow> '''' | v0 # _ \<Rightarrow> v0))"

definition Header_Values :: "Header \<Rightarrow> string \<Rightarrow> string list" where
  "Header_Values h key =
    (case h (CanonicalMIMEHeaderKey key) of None \<Rightarrow> [] | Some v \<Rightarrow> v)"

text \<open>
  \<^verbatim>\<open>Add\<close> is how a header map is filled; the analyzer itself never calls it:
  \<^verbatim>\<open>key = CanonicalMIMEHeaderKey(key); h[key] = append(h[key], value)\<close>.
\<close>

definition Header_Add :: "Header \<Rightarrow> string \<Rightarrow> string \<Rightarrow> Header" where
  "Header_Add h key value =
    (let key = CanonicalMIMEHeaderKey key
     in h(key \<mapsto> (case h key of None \<Rightarrow> [] | Some v \<Rightarrow> v) @ [value]))"

text \<open>Of \<^verbatim>\<open>http.Response\<close> the analyzer reads the field \<^verbatim>\<open>Header\<close> only.\<close>

record Response =
  Header :: Header

text \<open>A Go \<^verbatim>\<open>error\<close> value, carrying its message.\<close>

datatype error = Error string

section \<open>Presence of a header (lines 85--101)\<close>

fun aliasLoop :: "Response \<Rightarrow> string list \<Rightarrow> bool" where
  "aliasLoop resp [] = False"
| "aliasLoop resp (alias # rest) =
    (if Header_Get (Header resp) alias \<noteq> '''' then True else aliasLoop resp rest)"

definition isHeaderPresent :: "Response \<Rightarrow> SecurityHeader \<Rightarrow> bool" where
  "isHeaderPresent resp header =
    (if Header_Get (Header resp) (Name header) \<noteq> '''' then True
     else aliasLoop resp (Aliases header))"

section \<open>Counting the headers of a tier (lines 213--243)\<close>

definition criticalHeaders :: "string list" where
  "criticalHeaders = [''Strict-Transport-Security'', ''X-Content-Type-Options'', ''X-Frame-Options'']"

definition importantHeaders :: "string list" where
  "importantHeaders = [''Content-Security-Policy'', ''Referrer-Policy'']"

text \<open>
  The inner loop of both counting functions: the first name that equals the name of a
  present header increments the count and leaves the loop.
\<close>

fun matchLoop :: "SecurityHeader \<Rightarrow> string list \<Rightarrow> int \<Rightarrow> int" where
  "matchLoop header [] count = count"
| "matchLoop header (name # rest) count =
    (if Name header = name \<and> Present header then count + 1
     else matchLoop header rest count)"

fun countLoop :: "string list \<Rightarrow> SecurityHeader list \<Rightarrow> int \<Rightarrow> int" where
  "countLoop names [] count = count"
| "countLoop names (header # rest) count = countLoop names rest (matchLoop header names count)"

definition countCriticalHeaders :: "SecurityHeader list \<Rightarrow> int" where
  "countCriticalHeaders summary = countLoop criticalHeaders summary 0"

definition countImportantHeaders :: "SecurityHeader list \<Rightarrow> int" where
  "countImportantHeaders summary = countLoop importantHeaders summary 0"

section \<open>Grade (lines 245--258)\<close>

definition calculateGrade :: "int \<Rightarrow> string" where
  "calculateGrade score =
    (if score \<ge> 80 then ''A''
     else if score \<ge> 65 then ''B''
     else if score \<ge> 45 then ''C''
     else if score \<ge> 25 then ''D''
     else ''F'')"

section \<open>AnalyzeURL (lines 103--197)\<close>

text \<open>Lines 104--106: the scheme is added to a URL that has none.\<close>

definition normalizeURL :: "string \<Rightarrow> string" where
  "normalizeURL url =
    (if \<not> HasPrefix url ''http://'' \<and> \<not> HasPrefix url ''https://''
     then ''https://'' @ url else url)"

text \<open>
  Lines 133--150: the loop over the catalog. Its state is the result under
  construction and the two running sums.
\<close>

fun headerLoop ::
  "Response \<Rightarrow> SecurityHeader list \<Rightarrow> AnalysisResult \<times> int \<times> int \<Rightarrow> AnalysisResult \<times> int \<times> int"
where
  "headerLoop resp [] st = st"
| "headerLoop resp (header # rest) (result, totalWeight, achievedWeight) =
    (let present = isHeaderPresent resp header;
         summaryItem = \<lparr>Name = Name header, Present = present,
           Description = Description header, Weight = Weight header,
           Aliases = Aliases header\<rparr>
     in headerLoop resp rest
          (result\<lparr>Headers := (Headers result)(Name header \<mapsto> present),
                  Summary := Summary result @ [summaryItem]\<rparr>,
           totalWeight + Weight header,
           if present then achievedWeight + Weight header else achievedWeight))"

text \<open>Lines 153--156.\<close>

definition headerScore :: "int \<Rightarrow> int \<Rightarrow> int" where
  "headerScore totalWeight achievedWeight =
    (if totalWeight > 0 then go_quot (achievedWeight * 70) totalWeight else 0)"

text \<open>Lines 159--162.\<close>

definition httpsScore :: "string \<Rightarrow> int" where
  "httpsScore url = (if HasPrefix url ''https://'' then 30 else 0)"

text \<open>Lines 173--176 and 182--185: the bonus computed when the count is positive.\<close>

definition criticalBonus :: "int \<Rightarrow> int" where
  "criticalBonus criticalCount =
    (let bonus = go_quot (criticalCount * 10) 3 in if bonus > 10 then 10 else bonus)"

definition importantBonus :: "int \<Rightarrow> int" where
  "importantBonus importantCount =
    (let bonus = go_quot (importantCount * 5) 2 in if bonus > 5 then 5 else bonus)"

text \<open>
  Lines 124--128: the result as it is allocated, with an empty map, an empty summary and
  the URL; score and grade have Go's zero values.
\<close>

definition newResult :: "string \<Rightarrow> AnalysisResult" where
  "newResult url = \<lparr>Headers = Map.empty, Score = 0, Grade = '''', Summary = [], URL = url\<rparr>"

text \<open>
  Lines 124--196: what \<^verbatim>\<open>AnalyzeURL\<close> does with the response once it has one. The Go
  function updates \<^verbatim>\<open>result\<close> in place; here every update binds the name anew.
\<close>

definition scoreResponse :: "Response \<Rightarrow> string \<Rightarrow> AnalysisResult" where
  "scoreResponse resp url =
    (let result = newResult url;
         (result, totalWeight, achievedWeight) = headerLoop resp securityHeaders (result, 0, 0);
         result = result\<lparr>Score := headerScore totalWeight achievedWeight + httpsScore url\<rparr>;
         criticalCount = countCriticalHeaders (Summary result);
         importantCount = countImportantHeaders (Summary result);
         result = (if criticalCount > 0
                   then result\<lparr>Score := Score result + criticalBonus criticalCount\<rparr>
                   else result);
         result = (if importantCount > 0
                   then result\<lparr>Score := Score result + importantBonus importantCount\<rparr>
                   else result);
         result = (if Score result > 100 then result\<lparr>Score := 100\<rparr> else result)
     in result\<lparr>Grade := calculateGrade (Score result)\<rparr>)"

text \<open>
  The whole function. The HTTP client is a parameter: \<open>clientGet\<close> stands for
  \<^verbatim>\<open>client.Get\<close>, which returns either a non-nil error or a response. The Go function
  returns a pair of a pointer and an error; nil is \<open>None\<close>.
\<close>

definition AnalyzeURL ::
  "(string \<Rightarrow> error + Response) \<Rightarrow> string \<Rightarrow> AnalysisResult option \<times> error option"
where
  "AnalyzeURL clientGet url =
    (let url = normalizeURL url in
     case clientGet url of
       Inl err \<Rightarrow> (None, Some err)
     | Inr resp \<Rightarrow> (Some (scoreResponse resp url), None))"

section \<open>Notions used to state the properties\<close>

text \<open>
  The definitions of this section are not part of the program: they name what the
  properties below speak about.
\<close>

text \<open>The order of the letter grades, best last.\<close>

definition gradeRank :: "string \<Rightarrow> nat" where
  "gradeRank g =
    (if g = ''A'' then 4 else if g = ''B'' then 3 else if g = ''C'' then 2
     else if g = ''D'' then 1 else 0)"

text \<open>
  Two header names are the same name up to the case of their ASCII letters when
  \<open>asciiLower\<close> maps them to the same string.
\<close>

definition lowerByte :: "char \<Rightarrow> char" where
  "lowerByte c = (if isUpperAZ c then char_of (of_char c + toLower) else c)"

definition asciiLower :: "string \<Rightarrow> string" where
  "asciiLower s = map lowerByte s"

text \<open>The byte that one round of the loop \<open>canonBytes\<close> writes.\<close>

definition canonByte :: "bool \<Rightarrow> char \<Rightarrow> char" where
  "canonByte upper c =
    (if upper \<and> isLowerAZ c then char_of (of_char c - toLower)
     else if \<not> upper \<and> isUpperAZ c then char_of (of_char c + toLower)
     else c)"

text \<open>
  The documentation of \<^verbatim>\<open>http.Header\<close> asks for keys in canonical form, and the
  transport stores every field it receives under its canonical key.
\<close>

definition canonicalKeys :: "Header \<Rightarrow> bool" where
  "canonicalKeys h = (\<forall>k. k \<in> dom h \<longrightarrow> CanonicalMIMEHeaderKey k = k)"

text \<open>
  The header map of a response whose field lines arrive in the given order, each a name
  and a value: every line is added under the canonical form of its name.
\<close>

fun receivedHeader :: "Header \<Rightarrow> (string \<times> string) list \<Rightarrow> Header" where
  "receivedHeader h [] = h"
| "receivedHeader h ((key, value) # lines) = receivedHeader (Header_Add h key value) lines"

text \<open>The name and the aliases of a catalog entry are made of header field bytes.\<close>

definition tokenNames :: "SecurityHeader \<Rightarrow> bool" where
  "tokenNames header = list_all (list_all validHeaderFieldByte) (Name header # Aliases header)"

text \<open>
  Presence as the specification words it: the name or one of the aliases has at least
  one non-empty value among all the values the response holds for it.
\<close>

fun anyNonEmpty :: "string list \<Rightarrow> bool" where
  "anyNonEmpty [] = False"
| "anyNonEmpty (v # vs) = (if v = '''' then anyNonEmpty vs else True)"

fun anyNameNonEmpty :: "Header \<Rightarrow> string list \<Rightarrow> bool" where
  "anyNameNonEmpty h [] = False"
| "anyNameNonEmpty h (n # ns) =
    (if anyNonEmpty (Header_Values h n) then True else anyNameNonEmpty h ns)"

definition presentAsClaimed :: "Response \<Rightarrow> SecurityHeader \<Rightarrow> bool" where
  "presentAsClaimed resp header = anyNameNonEmpty (Header resp) (Name header # Aliases header)"

text \<open>
  A response with two \<^verbatim>\<open>X-Frame-Options\<close> field lines, the first with an empty value
  and the second with the value \<^verbatim>\<open>DENY\<close>.
\<close>

definition emptyThenDeny :: Response where
  "emptyThenDeny =
    \<lparr>Header = receivedHeader Map.empty
      [(''X-Frame-Options'', ''''), (''X-Frame-Options'', ''DENY'')]\<rparr>"

text \<open>The catalog entry with its presence filled in: what the summary must hold for it.\<close>

definition summaryItemOf :: "Response \<Rightarrow> SecurityHeader \<Rightarrow> SecurityHeader" where
  "summaryItemOf resp header =
    \<lparr>Name = Name header, Present = isHeaderPresent resp header,
     Description = Description header, Weight = Weight header, Aliases = Aliases header\<rparr>"

text \<open>The sum of the weights of the catalog headers that are present.\<close>

definition achievedWeightOf :: "Response \<Rightarrow> int" where
  "achievedWeightOf resp = sum_list (map Weight (filter (isHeaderPresent resp) securityHeaders))"

text \<open>The number of catalog headers, among those named, that are present.\<close>

definition presentCount :: "string list \<Rightarrow> Response \<Rightarrow> int" where
  "presentCount names resp =
    int (length (filter (\<lambda>h. Name h \<in> set names \<and> isHeaderPresent resp h) securityHeaders))"

text \<open>The bonus of a tier as the analysis adds it: nothing when the count is not positive.\<close>

definition bonusAdded :: "(int \<Rightarrow> int) \<Rightarrow> int \<Rightarrow> int" where
  "bonusAdded bonus n = (if n > 0 then bonus n else 0)"

text \<open>
  The score before the cap, from the variables of the program: header score, HTTPS
  score and the two bonuses.
\<close>

definition rawScore :: "Response \<Rightarrow> string \<Rightarrow> int" where
  "rawScore resp url =
    (case headerLoop resp securityHeaders (newResult url, 0, 0) of
       (result, totalWeight, achievedWeight) \<Rightarrow>
         headerScore totalWeight achievedWeight + httpsScore url +
         bonusAdded criticalBonus (countCriticalHeaders (Summary result)) +
         bonusAdded importantBonus (countImportantHeaders (Summary result)))"

text \<open>
  Four responses for the scenarios of the specification: one with the three critical
  headers only, one with no header at all, one with only \<^verbatim>\<open>Referrer-Policy\<close>, and one
  with all eight catalog headers.
\<close>

definition criticalOnly :: Response where
  "criticalOnly =
    \<lparr>Header = [''Strict-Transport-Security'' \<mapsto> [''max-age=31536000''],
               ''X-Content-Type-Options'' \<mapsto> [''nosniff''],
               ''X-Frame-Options'' \<mapsto> [''DENY'']]\<rparr>"

definition noHeaders :: Response where
  "noHeaders = \<lparr>Header = Map.empty\<rparr>"

definition referrerOnly :: Response where
  "referrerOnly = \<lparr>Header = [''Referrer-Policy'' \<mapsto> [''no-referrer'']]\<rparr>"

definition allHeaders :: Response where
  "allHeaders =
    \<lparr>Header = [''Strict-Transport-Security'' \<mapsto> [''max-age=31536000''],
               ''X-Content-Type-Options'' \<mapsto> [''nosniff''],
               ''X-Frame-Options'' \<mapsto> [''DENY''],
               ''Content-Security-Policy'' \<mapsto> [''default-src https:''],
               ''Referrer-Policy'' \<mapsto> [''no-referrer''],
               ''Permissions-Policy'' \<mapsto> [''camera=()''],
               ''Cross-Origin-Opener-Policy'' \<mapsto> [''same-origin''],
               ''Cross-Origin-Resource-Policy'' \<mapsto> [''same-origin'']]\<rparr>"

text \<open>
  The tier of a catalog header, as the comments of the catalog (lines 36, 53 and 66)
  and the data model of the specification give it: three critical headers, two
  important ones, the others recommended. It is written down here by name, apart from
  the lists of names inside the two counting functions.
\<close>

definition tierOf :: "string \<Rightarrow> SecurityHeaderTier" where
  "tierOf name =
    (if name = ''Strict-Transport-Security'' \<or> name = ''X-Content-Type-Options'' \<or>
        name = ''X-Frame-Options'' then Critical
     else if name = ''Content-Security-Policy'' \<or> name = ''Referrer-Policy'' then Important
     else Recommended)"

text \<open>The number of catalog headers of a tier that are present in a response.\<close>

definition tierCount :: "SecurityHeaderTier \<Rightarrow> Response \<Rightarrow> int" where
  "tierCount tier resp =
    int (length (filter (\<lambda>h. tierOf (Name h) = tier \<and> isHeaderPresent resp h) securityHeaders))"

text \<open>
  Two more responses: one with a single critical header, and one with two critical and
  two important headers, \<^verbatim>\<open>Content-Security-Policy\<close> being sent under its alias.
\<close>

definition nosniffOnly :: Response where
  "nosniffOnly = \<lparr>Header = [''X-Content-Type-Options'' \<mapsto> [''nosniff'']]\<rparr>"

definition mixedHeaders :: Response where
  "mixedHeaders =
    \<lparr>Header = [''Strict-Transport-Security'' \<mapsto> [''max-age=31536000''],
               ''X-Frame-Options'' \<mapsto> [''SAMEORIGIN''],
               ''Content-Security-Policy-Report-Only'' \<mapsto> [''default-src https:''],
               ''Referrer-Policy'' \<mapsto> [''no-referrer'']]\<rparr>"

section \<open>Basic facts\<close>

lemma HasPrefix_iff_prefix: "HasPrefix s pre \<longleftrightarrow> prefix pre s"
  unfolding HasPrefix_def prefix_def
  by (metis append_eq_conv_conj append_take_drop_id length_append le_add1)

lemma go_quot_nonneg: "0 \<le> a \<Longrightarrow> 0 < b \<Longrightarrow> go_quot a b = a div b"
  by (simp add: go_quot_def)

lemma gradeRank_calculateGrade:
  "gradeRank (calculateGrade s) =
    (if s \<ge> 80 then 4 else if s \<ge> 65 then 3 else if s \<ge> 45 then 2 else if s \<ge> 25 then 1 else 0)"
  by (simp add: gradeRank_def calculateGrade_def)

subsection \<open>Bytes and canonical keys\<close>

lemma toLower_32: "toLower = 32"
  by (simp add: toLower_def)

lemma byte_cases: obtains n :: nat where "n < 256" "c = char_of n"
  by (metis char_of_char nat_of_char_less_256)

lemmas byte_simps = lowerByte_def isLowerAZ_def isUpperAZ_def toLower_32 less_eq_char_def
  char_of_eq_iff take_bit_nat_eq_self

lemma lowerByte_canonByte: "lowerByte (canonByte upper c) = lowerByte c"
proof -
  obtain n :: nat where "n < 256" "c = char_of n" by (rule byte_cases)
  then show ?thesis
    by (cases upper) (simp_all add: canonByte_def byte_simps, arith)
qed

lemma canonByte_lowerByte: "canonByte upper (lowerByte c) = canonByte upper c"
proof -
  obtain n :: nat where "n < 256" "c = char_of n" by (rule byte_cases)
  then show ?thesis
    by (cases upper) (simp_all add: canonByte_def byte_simps)
qed

lemma valid_lowerByte: "validHeaderFieldByte (lowerByte c) = validHeaderFieldByte c"
proof -
  obtain n :: nat where "n < 256" "c = char_of n" by (rule byte_cases)
  then show ?thesis
    by (simp add: validHeaderFieldByte_def byte_simps)
qed

lemma canonByte_hyphen: "canonByte upper c = CHR ''-'' \<longleftrightarrow> c = CHR ''-''"
proof -
  obtain n :: nat where "n < 256" "c = char_of n" by (rule byte_cases)
  then show ?thesis
    by (cases upper) (simp_all add: canonByte_def byte_simps, arith)
qed

lemma canonByte_fixed:
  "\<not> (upper \<and> isLowerAZ c) \<Longrightarrow> \<not> (\<not> upper \<and> isUpperAZ c) \<Longrightarrow> canonByte upper c = c"
  by (cases upper) (simp_all add: canonByte_def)

lemma canonByte_idem: "canonByte upper (canonByte upper c) = canonByte upper c"
proof -
  obtain n :: nat where "n < 256" "c = char_of n" by (rule byte_cases)
  then show ?thesis
    by (cases upper) (simp_all add: canonByte_def byte_simps, arith)
qed


lemma canonBytes_Cons:
  "canonBytes upper (c # cs) = canonByte upper c # canonBytes (canonByte upper c = CHR ''-'') cs"
  by (simp add: canonByte_def Let_def)

lemma canonByte_cong:
  assumes "lowerByte c = lowerByte d"
  shows "canonByte upper c = canonByte upper d"
proof -
  have "canonByte upper c = canonByte upper (lowerByte c)"
    by (simp only: canonByte_lowerByte)
  also have "\<dots> = canonByte upper (lowerByte d)"
    by (simp only: assms)
  also have "\<dots> = canonByte upper d"
    by (simp only: canonByte_lowerByte)
  finally show ?thesis .
qed

lemma asciiLower_Cons_eq:
  assumes "asciiLower (c # cs) = asciiLower n"
  obtains d ds where "n = d # ds" "lowerByte c = lowerByte d" "asciiLower cs = asciiLower ds"
  using assms by (cases n) (simp_all add: asciiLower_def)

lemma canonBytes_cong:
  "asciiLower k = asciiLower n \<Longrightarrow> canonBytes upper k = canonBytes upper n"
proof (induction k arbitrary: n upper)
  case Nil
  then show ?case by (simp add: asciiLower_def)
next
  case (Cons c cs)
  from Cons.prems obtain d ds
    where n: "n = d # ds" "lowerByte c = lowerByte d" "asciiLower cs = asciiLower ds"
    by (rule asciiLower_Cons_eq)
  have "canonByte upper c = canonByte upper d"
    using n(2) by (rule canonByte_cong)
  then show ?case
    using Cons.IH [OF n(3)] by (simp only: n(1) canonBytes_Cons)
qed

lemma asciiLower_canonBytes: "asciiLower (canonBytes upper s) = asciiLower s"
  by (induction s arbitrary: upper)
    (simp_all only: canonBytes.simps(1) canonBytes_Cons asciiLower_def list.map lowerByte_canonByte)

lemma token_cong:
  "asciiLower k = asciiLower n \<Longrightarrow> list_all validHeaderFieldByte k = list_all validHeaderFieldByte n"
proof (induction k arbitrary: n)
  case Nil
  then show ?case by (simp add: asciiLower_def)
next
  case (Cons c cs)
  from Cons.prems obtain d ds
    where n: "n = d # ds" "lowerByte c = lowerByte d" "asciiLower cs = asciiLower ds"
    by (rule asciiLower_Cons_eq)
  have "validHeaderFieldByte (lowerByte c) = validHeaderFieldByte (lowerByte d)"
    by (simp only: n(2))
  then have "validHeaderFieldByte c = validHeaderFieldByte d"
    by (simp only: valid_lowerByte)
  then show ?case
    using Cons.IH [OF n(3)] by (simp add: n(1))
qed

lemma scanKey_token: "list_all validHeaderFieldByte s \<Longrightarrow> scanKey s noCanon = Some noCanon"
  by (induction s) simp_all

lemma canonicalMIMEHeaderKey_token:
  "list_all validHeaderFieldByte s \<Longrightarrow> canonicalMIMEHeaderKey s = canonBytes True s"
  by (simp add: canonicalMIMEHeaderKey_def scanKey_token)

lemma canonicalMIMEHeaderKey_cases:
  "canonicalMIMEHeaderKey s = s \<or> canonicalMIMEHeaderKey s = canonBytes True s"
  by (simp add: canonicalMIMEHeaderKey_def split: option.splits)

lemma quickCheck_cases:
  "canonicalQuickCheck s upper cs = s \<or> canonicalQuickCheck s upper cs = canonBytes True s"
proof (induction cs arbitrary: upper)
  case Nil
  then show ?case by simp
next
  case (Cons c cs)
  show ?case
    using canonicalMIMEHeaderKey_cases [of s] Cons.IH [of "c = CHR ''-''"]
    by (simp only: canonicalQuickCheck.simps split: if_splits) blast
qed

lemma asciiLower_Canonical: "asciiLower (CanonicalMIMEHeaderKey s) = asciiLower s"
  using quickCheck_cases [of s True s]
  by (auto simp add: CanonicalMIMEHeaderKey_def asciiLower_canonBytes)

lemma quickCheck_token:
  assumes "list_all validHeaderFieldByte s"
  shows "s = p @ cs \<Longrightarrow> canonBytes True s = p @ canonBytes upper cs \<Longrightarrow>
    canonicalQuickCheck s upper cs = canonBytes True s"
proof (induction cs arbitrary: p upper)
  case Nil
  then show ?case by simp
next
  case (Cons c cs)
  have valid: "validHeaderFieldByte c"
    using assms Cons.prems(1) by simp
  show ?case
  proof (cases "(upper \<and> isLowerAZ c) \<or> (\<not> upper \<and> isUpperAZ c)")
    case True
    then show ?thesis
      using valid assms by (auto simp add: canonicalMIMEHeaderKey_token)
  next
    case False
    then have fixed: "canonByte upper c = c"
      by (intro canonByte_fixed) blast+
    have "canonBytes True s = (p @ [c]) @ canonBytes (c = CHR ''-'') cs"
      using Cons.prems(2) fixed by (simp only: canonBytes_Cons append_assoc append_Cons append_Nil)
    moreover have "s = (p @ [c]) @ cs"
      using Cons.prems(1) by simp
    ultimately have "canonicalQuickCheck s (c = CHR ''-'') cs = canonBytes True s"
      by (rule Cons.IH [rotated])
    then show ?thesis
      using valid False by auto
  qed
qed

lemma Canonical_token:
  "list_all validHeaderFieldByte s \<Longrightarrow> CanonicalMIMEHeaderKey s = canonBytes True s"
  unfolding CanonicalMIMEHeaderKey_def
  by (rule quickCheck_token [where p = "[]"]) simp_all

lemma Canonical_cong:
  assumes "list_all validHeaderFieldByte n" and "asciiLower k = asciiLower n"
  shows "CanonicalMIMEHeaderKey k = CanonicalMIMEHeaderKey n"
proof -
  have "list_all validHeaderFieldByte k"
    using assms token_cong by blast
  then show ?thesis
    using assms(1) canonBytes_cong [OF assms(2), of True] by (simp only: Canonical_token)
qed

subsection \<open>Header lookup and presence\<close>

lemma Header_Get_nonempty:
  "Header_Get h key \<noteq> [] \<longleftrightarrow> (\<exists>v vs. h (CanonicalMIMEHeaderKey key) = Some (v # vs) \<and> v \<noteq> [])"
  by (simp add: Header_Get_def split: option.splits list.splits)

lemma aliasLoop_iff:
  "aliasLoop resp aliases \<longleftrightarrow> (\<exists>a \<in> set aliases. Header_Get (Header resp) a \<noteq> [])"
  by (induction aliases) simp_all

lemma isHeaderPresent_iff:
  "isHeaderPresent resp header \<longleftrightarrow>
    (\<exists>n \<in> set (Name header # Aliases header). Header_Get (Header resp) n \<noteq> [])"
  by (simp add: isHeaderPresent_def aliasLoop_iff)

lemma Header_Get_folded:
  assumes keys: "canonicalKeys h" and token: "list_all validHeaderFieldByte n"
  shows "Header_Get h n \<noteq> [] \<longleftrightarrow>
    (\<exists>k v vs. asciiLower k = asciiLower n \<and> h k = Some (v # vs) \<and> v \<noteq> [])"
proof
  assume "Header_Get h n \<noteq> []"
  then obtain v vs where "h (CanonicalMIMEHeaderKey n) = Some (v # vs)" "v \<noteq> []"
    unfolding Header_Get_nonempty by blast
  moreover have "asciiLower (CanonicalMIMEHeaderKey n) = asciiLower n"
    by (rule asciiLower_Canonical)
  ultimately show "\<exists>k v vs. asciiLower k = asciiLower n \<and> h k = Some (v # vs) \<and> v \<noteq> []"
    by blast
next
  assume "\<exists>k v vs. asciiLower k = asciiLower n \<and> h k = Some (v # vs) \<and> v \<noteq> []"
  then obtain k v vs where k: "asciiLower k = asciiLower n" "h k = Some (v # vs)" "v \<noteq> []"
    by blast
  have "k \<in> dom h"
    using k(2) by blast
  then have "CanonicalMIMEHeaderKey k = k"
    using keys unfolding canonicalKeys_def by blast
  moreover have "CanonicalMIMEHeaderKey k = CanonicalMIMEHeaderKey n"
    using token k(1) by (rule Canonical_cong)
  ultimately have "h (CanonicalMIMEHeaderKey n) = Some (v # vs)"
    using k(2) by simp
  then show "Header_Get h n \<noteq> []"
    unfolding Header_Get_nonempty using k(3) by blast
qed

lemma isHeaderPresent_folded:
  assumes "canonicalKeys (Header resp)" and "tokenNames header"
  shows "isHeaderPresent resp header \<longleftrightarrow>
    (\<exists>n \<in> set (Name header # Aliases header). \<exists>k v vs.
       asciiLower k = asciiLower n \<and> Header resp k = Some (v # vs) \<and> v \<noteq> [])"
proof -
  have "Header_Get (Header resp) n \<noteq> [] \<longleftrightarrow>
      (\<exists>k v vs. asciiLower k = asciiLower n \<and> Header resp k = Some (v # vs) \<and> v \<noteq> [])"
    if "n \<in> set (Name header # Aliases header)" for n
  proof -
    have "list_all validHeaderFieldByte n"
      using assms(2) that unfolding tokenNames_def list_all_iff by blast
    with assms(1) show ?thesis
      by (rule Header_Get_folded)
  qed
  then show ?thesis
    unfolding isHeaderPresent_iff by blast
qed

lemma catalog_tokenNames: "list_all tokenNames securityHeaders"
  by code_simp

subsection \<open>Header maps as the transport fills them\<close>

lemma canonByte_fixed_iff:
  "canonByte upper c = c \<longleftrightarrow> \<not> (upper \<and> isLowerAZ c) \<and> \<not> (\<not> upper \<and> isUpperAZ c)"
proof -
  obtain n :: nat where "n < 256" "c = char_of n" by (rule byte_cases)
  then show ?thesis
    by (cases upper) (simp_all add: canonByte_def byte_simps, arith+)
qed

lemma canonBytes_idem: "canonBytes upper (canonBytes upper s) = canonBytes upper s"
  by (induction s arbitrary: upper)
    (simp_all only: canonBytes.simps(1) canonBytes_Cons canonByte_idem canonByte_hyphen)

lemma quickCheck_fixed:
  "canonBytes upper cs = cs \<Longrightarrow> canonicalQuickCheck t upper cs = t"
proof (induction cs arbitrary: upper)
  case Nil
  then show ?case by simp
next
  case (Cons c cs)
  from Cons.prems
  have "canonByte upper c # canonBytes (canonByte upper c = CHR ''-'') cs = c # cs"
    by (simp only: canonBytes_Cons)
  then have both: "canonByte upper c = c \<and> canonBytes (canonByte upper c = CHR ''-'') cs = cs"
    by blast
  from both have fixed: "canonByte upper c = c"
    by (rule conjunct1)
  from both have rest: "canonBytes (canonByte upper c = CHR ''-'') cs = cs"
    by (rule conjunct2)
  from rest have "canonBytes (c = CHR ''-'') cs = cs"
    by (simp only: fixed)
  then have "canonicalQuickCheck t (c = CHR ''-'') cs = t"
    by (rule Cons.IH)
  moreover have "\<not> (upper \<and> isLowerAZ c)" "\<not> (\<not> upper \<and> isUpperAZ c)"
    using fixed unfolding canonByte_fixed_iff by blast+
  ultimately show ?case
    by auto
qed

lemma Canonical_idem:
  "CanonicalMIMEHeaderKey (CanonicalMIMEHeaderKey s) = CanonicalMIMEHeaderKey s"
proof -
  consider "CanonicalMIMEHeaderKey s = s" | "CanonicalMIMEHeaderKey s = canonBytes True s"
    using quickCheck_cases [of s True s] unfolding CanonicalMIMEHeaderKey_def by blast
  then show ?thesis
  proof cases
    case 1
    then show ?thesis by simp
  next
    case 2
    have "canonicalQuickCheck (canonBytes True s) True (canonBytes True s) = canonBytes True s"
      by (rule quickCheck_fixed) (rule canonBytes_idem)
    then show ?thesis
      by (simp only: 2 CanonicalMIMEHeaderKey_def [of "canonBytes True s"])
  qed
qed

lemma canonicalKeys_empty: "canonicalKeys Map.empty"
  by (simp add: canonicalKeys_def)

lemma canonicalKeys_Add: "canonicalKeys h \<Longrightarrow> canonicalKeys (Header_Add h key value)"
  by (auto simp add: canonicalKeys_def Header_Add_def Let_def Canonical_idem)

lemma canonicalKeys_received: "canonicalKeys h \<Longrightarrow> canonicalKeys (receivedHeader h lines)"
  by (induction h lines rule: receivedHeader.induct) (simp_all add: canonicalKeys_Add)

lemma canonical_examples:
  "CanonicalMIMEHeaderKey ''x-frame-options'' = ''X-Frame-Options''"
  "CanonicalMIMEHeaderKey ''X-FRAME-OPTIONS'' = ''X-Frame-Options''"
  "CanonicalMIMEHeaderKey ''X-Frame-Options'' = ''X-Frame-Options''"
  "CanonicalMIMEHeaderKey ''content-security-policy-report-only'' =
    ''Content-Security-Policy-Report-Only''"
  by code_simp+

lemma received_examples:
  "receivedHeader Map.empty [(''x-frame-options'', ''''), (''X-FRAME-OPTIONS'', ''DENY'')] =
    [''X-Frame-Options'' \<mapsto> ['''', ''DENY'']]"
  "receivedHeader Map.empty [(''content-security-policy-report-only'', ''default-src'')] =
    [''Content-Security-Policy-Report-Only'' \<mapsto> [''default-src'']]"
  by (simp_all add: Header_Add_def Let_def canonical_examples)

subsection \<open>The loop over the catalog\<close>

lemma headerLoop_eq:
  "headerLoop resp hs (result, totalWeight, achievedWeight) =
    (result\<lparr>Headers := foldl (\<lambda>m h. m(Name h \<mapsto> isHeaderPresent resp h)) (Headers result) hs,
            Summary := Summary result @ map (summaryItemOf resp) hs\<rparr>,
     totalWeight + sum_list (map Weight hs),
     achievedWeight + sum_list (map Weight (filter (isHeaderPresent resp) hs)))"
proof (induction hs arbitrary: result totalWeight achievedWeight)
  case Nil
  then show ?case by simp
next
  case (Cons h hs)
  show ?case
    by (simp add: Cons.IH Let_def summaryItemOf_def)
qed

lemma foldl_headers_other:
  "k \<notin> Name ` set hs \<Longrightarrow> foldl (\<lambda>m h. m(Name h \<mapsto> P h)) m hs k = m k"
  by (induction hs arbitrary: m) auto

lemma foldl_headers_dom:
  "dom (foldl (\<lambda>m h. m(Name h \<mapsto> P h)) m hs) = dom m \<union> Name ` set hs"
  by (induction hs arbitrary: m) auto

lemma foldl_headers_lookup:
  "distinct (map Name hs) \<Longrightarrow> h \<in> set hs \<Longrightarrow>
    foldl (\<lambda>m h. m(Name h \<mapsto> P h)) m hs (Name h) = Some (P h)"
proof (induction hs arbitrary: m)
  case Nil
  then show ?case by simp
next
  case (Cons x xs)
  show ?case
  proof (cases "h = x")
    case True
    have "Name x \<notin> Name ` set xs"
      using Cons.prems(1) by simp
    then have "foldl (\<lambda>m h. m(Name h \<mapsto> P h)) (m(Name x \<mapsto> P x)) xs (Name x) =
        (m(Name x \<mapsto> P x)) (Name x)"
      by (rule foldl_headers_other)
    then show ?thesis
      using True by (simp del: fun_upd_apply) simp
  next
    case False
    then show ?thesis
      using Cons by simp
  qed
qed

subsection \<open>Counting\<close>

lemma matchLoop_eq:
  "matchLoop header names count =
    (if Name header \<in> set names \<and> Present header then count + 1 else count)"
  by (induction names) auto

lemma countLoop_eq:
  "countLoop names summary count =
    count + int (length (filter (\<lambda>h. Name h \<in> set names \<and> Present h) summary))"
  by (induction summary arbitrary: count) (simp_all add: matchLoop_eq)

lemma countLoop_summary:
  "countLoop names (map (summaryItemOf resp) hs) 0 =
    int (length (filter (\<lambda>h. Name h \<in> set names \<and> isHeaderPresent resp h) hs))"
  by (simp add: countLoop_eq filter_map comp_def summaryItemOf_def)

subsection \<open>The catalog\<close>

lemma catalog_total: "sum_list (map Weight securityHeaders) = 110"
  by (simp add: securityHeaders_def)

lemma catalog_weights: "h \<in> set securityHeaders \<Longrightarrow> 0 \<le> Weight h"
  by (auto simp add: securityHeaders_def)

lemma catalog_names:
  "map Name securityHeaders =
    [''Strict-Transport-Security'', ''X-Content-Type-Options'', ''X-Frame-Options'',
     ''Content-Security-Policy'', ''Referrer-Policy'', ''Permissions-Policy'',
     ''Cross-Origin-Opener-Policy'', ''Cross-Origin-Resource-Policy'']"
  by (simp add: securityHeaders_def)

lemma catalog_distinct: "distinct (map Name securityHeaders)"
  unfolding catalog_names by simp

lemma catalog_length: "length securityHeaders = 8"
  by (simp add: securityHeaders_def)

subsection \<open>The result, field by field\<close>

lemma newResult_sel:
  "Headers (newResult url) = Map.empty" "Summary (newResult url) = []" "URL (newResult url) = url"
  by (simp_all add: newResult_def)

lemma headerLoop_catalog:
  "headerLoop resp securityHeaders (newResult url, 0, 0) =
    ((newResult url)\<lparr>Headers := foldl (\<lambda>m h. m(Name h \<mapsto> isHeaderPresent resp h)) Map.empty securityHeaders,
                     Summary := map (summaryItemOf resp) securityHeaders\<rparr>,
     110, achievedWeightOf resp)"
  by (simp add: headerLoop_eq catalog_total achievedWeightOf_def newResult_sel)

lemma count_catalog:
  "countCriticalHeaders (map (summaryItemOf resp) securityHeaders) = presentCount criticalHeaders resp"
  "countImportantHeaders (map (summaryItemOf resp) securityHeaders) = presentCount importantHeaders resp"
  by (simp_all add: countCriticalHeaders_def countImportantHeaders_def countLoop_summary presentCount_def)

lemma rawScore_eq:
  "rawScore resp url =
    headerScore 110 (achievedWeightOf resp) + httpsScore url +
    bonusAdded criticalBonus (presentCount criticalHeaders resp) +
    bonusAdded importantBonus (presentCount importantHeaders resp)"
  by (simp add: rawScore_def headerLoop_catalog count_catalog)

lemma scoreResponse_Summary:
  "Summary (scoreResponse resp url) = map (summaryItemOf resp) securityHeaders"
  by (simp add: scoreResponse_def headerLoop_catalog Let_def)

lemma scoreResponse_Headers:
  "Headers (scoreResponse resp url) =
    foldl (\<lambda>m h. m(Name h \<mapsto> isHeaderPresent resp h)) Map.empty securityHeaders"
  by (simp add: scoreResponse_def headerLoop_catalog Let_def)

lemma scoreResponse_URL: "URL (scoreResponse resp url) = url"
  by (simp add: scoreResponse_def headerLoop_catalog Let_def newResult_sel)

lemma scoreResponse_Score:
  "Score (scoreResponse resp url) = (if rawScore resp url > 100 then 100 else rawScore resp url)"
  by (simp add: scoreResponse_def headerLoop_catalog Let_def rawScore_eq count_catalog bonusAdded_def)

lemma scoreResponse_Grade:
  "Grade (scoreResponse resp url) = calculateGrade (Score (scoreResponse resp url))"
  by (simp add: scoreResponse_def headerLoop_catalog Let_def)

lemma AnalyzeURL_ok:
  "clientGet (normalizeURL url) = Inr resp \<Longrightarrow>
    AnalyzeURL clientGet url = (Some (scoreResponse resp (normalizeURL url)), None)"
  by (simp add: AnalyzeURL_def)

lemma AnalyzeURL_error:
  "clientGet (normalizeURL url) = Inl err \<Longrightarrow> AnalyzeURL clientGet url = (None, Some err)"
  by (simp add: AnalyzeURL_def)

subsection \<open>Weights and counts\<close>

lemma filter_weight_mono:
  fixes f :: "'a \<Rightarrow> int"
  assumes "\<And>x. x \<in> set xs \<Longrightarrow> 0 \<le> f x" and "\<And>x. x \<in> set xs \<Longrightarrow> P x \<Longrightarrow> Q x"
  shows "sum_list (map f (filter P xs)) \<le> sum_list (map f (filter Q xs))"
  using assms
proof (induction xs)
  case Nil
  then show ?case by simp
next
  case (Cons x xs)
  have IH: "sum_list (map f (filter P xs)) \<le> sum_list (map f (filter Q xs))"
    using Cons by simp
  have "0 \<le> f x" and "P x \<Longrightarrow> Q x"
    using Cons.prems by simp_all
  with IH show ?case by auto
qed

lemma filter_length_mono:
  assumes "\<And>x. x \<in> set xs \<Longrightarrow> P x \<Longrightarrow> Q x"
  shows "length (filter P xs) \<le> length (filter Q xs)"
  using assms
proof (induction xs)
  case Nil
  then show ?case by simp
next
  case (Cons x xs)
  have IH: "length (filter P xs) \<le> length (filter Q xs)"
    using Cons by simp
  have "P x \<Longrightarrow> Q x"
    using Cons.prems by simp
  with IH show ?case by auto
qed

lemma achievedWeightOf_nonneg: "0 \<le> achievedWeightOf resp"
  unfolding achievedWeightOf_def
  by (rule sum_list_nonneg) (auto simp add: catalog_weights)

lemma achievedWeightOf_le: "achievedWeightOf resp \<le> 110"
proof -
  have "sum_list (map Weight (filter (isHeaderPresent resp) securityHeaders)) \<le>
      sum_list (map Weight (filter (\<lambda>_. True) securityHeaders))"
    by (rule filter_weight_mono) (simp_all add: catalog_weights)
  then show ?thesis
    by (simp add: achievedWeightOf_def catalog_total)
qed

lemma achievedWeightOf_mono:
  assumes "\<And>h. h \<in> set securityHeaders \<Longrightarrow> isHeaderPresent R h \<Longrightarrow> isHeaderPresent R' h"
  shows "achievedWeightOf R \<le> achievedWeightOf R'"
  unfolding achievedWeightOf_def
  by (rule filter_weight_mono) (simp_all add: catalog_weights assms)

lemma presentCount_nonneg: "0 \<le> presentCount names resp"
  by (simp add: presentCount_def)

lemma presentCount_mono:
  assumes "\<And>h. h \<in> set securityHeaders \<Longrightarrow> isHeaderPresent R h \<Longrightarrow> isHeaderPresent R' h"
  shows "presentCount names R \<le> presentCount names R'"
proof -
  have "length (filter (\<lambda>h. Name h \<in> set names \<and> isHeaderPresent R h) securityHeaders) \<le>
      length (filter (\<lambda>h. Name h \<in> set names \<and> isHeaderPresent R' h) securityHeaders)"
    by (rule filter_length_mono) (simp add: assms)
  then show ?thesis
    by (simp add: presentCount_def)
qed

lemma presentCount_le_tier:
  "presentCount names resp \<le> int (length (filter (\<lambda>h. Name h \<in> set names) securityHeaders))"
proof -
  have "length (filter (\<lambda>h. Name h \<in> set names \<and> isHeaderPresent resp h) securityHeaders) \<le>
      length (filter (\<lambda>h. Name h \<in> set names) securityHeaders)"
    by (rule filter_length_mono) simp
  then show ?thesis
    by (simp add: presentCount_def)
qed

lemma tier_sizes:
  "length (filter (\<lambda>h. Name h \<in> set criticalHeaders) securityHeaders) = 3"
  "length (filter (\<lambda>h. Name h \<in> set importantHeaders) securityHeaders) = 2"
  by (simp_all add: securityHeaders_def criticalHeaders_def importantHeaders_def)

lemma presentCount_critical_le: "presentCount criticalHeaders resp \<le> 3"
  using presentCount_le_tier [of criticalHeaders resp] by (simp add: tier_sizes)

lemma presentCount_important_le: "presentCount importantHeaders resp \<le> 2"
  using presentCount_le_tier [of importantHeaders resp] by (simp add: tier_sizes)

subsection \<open>The parts of the score\<close>

lemma headerScore_110: "0 \<le> a \<Longrightarrow> headerScore 110 a = a * 70 div 110"
  by (simp add: headerScore_def go_quot_nonneg)

lemma headerScore_nonneg: "0 \<le> a \<Longrightarrow> 0 \<le> headerScore 110 a"
  by (simp add: headerScore_110)

lemma headerScore_le: "0 \<le> a \<Longrightarrow> a \<le> 110 \<Longrightarrow> headerScore 110 a \<le> 70"
  by (simp add: headerScore_110)

lemma headerScore_mono: "0 \<le> a \<Longrightarrow> a \<le> b \<Longrightarrow> headerScore 110 a \<le> headerScore 110 b"
  by (simp add: headerScore_110 zdiv_mono1)

lemma httpsScore_nonneg: "0 \<le> httpsScore url"
  by (simp add: httpsScore_def)

lemma criticalBonus_eq: "0 \<le> n \<Longrightarrow> criticalBonus n = min 10 (n * 10 div 3)"
  by (simp add: criticalBonus_def go_quot_nonneg Let_def min_def)

lemma importantBonus_eq: "0 \<le> n \<Longrightarrow> importantBonus n = min 5 (n * 5 div 2)"
  by (simp add: importantBonus_def go_quot_nonneg Let_def min_def)

lemma bonusAdded_critical: "0 \<le> n \<Longrightarrow> bonusAdded criticalBonus n = min 10 (n * 10 div 3)"
  by (simp add: bonusAdded_def criticalBonus_eq)

lemma bonusAdded_important: "0 \<le> n \<Longrightarrow> bonusAdded importantBonus n = min 5 (n * 5 div 2)"
  by (simp add: bonusAdded_def importantBonus_eq)

lemma bonusAdded_critical_bounds:
  "0 \<le> n \<Longrightarrow> 0 \<le> bonusAdded criticalBonus n \<and> bonusAdded criticalBonus n \<le> 10"
  by (simp add: bonusAdded_critical)

lemma bonusAdded_important_bounds:
  "0 \<le> n \<Longrightarrow> 0 \<le> bonusAdded importantBonus n \<and> bonusAdded importantBonus n \<le> 5"
  by (simp add: bonusAdded_important)

lemma bonusAdded_critical_mono:
  "0 \<le> m \<Longrightarrow> m \<le> n \<Longrightarrow> bonusAdded criticalBonus m \<le> bonusAdded criticalBonus n"
  by (simp add: bonusAdded_critical zdiv_mono1 min.coboundedI2)

lemma bonusAdded_important_mono:
  "0 \<le> m \<Longrightarrow> m \<le> n \<Longrightarrow> bonusAdded importantBonus m \<le> bonusAdded importantBonus n"
  by (simp add: bonusAdded_important zdiv_mono1 min.coboundedI2)

lemma rawScore_nonneg: "0 \<le> rawScore resp url"
  using headerScore_nonneg [OF achievedWeightOf_nonneg, of resp] httpsScore_nonneg [of url]
    bonusAdded_critical_bounds [OF presentCount_nonneg, of criticalHeaders resp]
    bonusAdded_important_bounds [OF presentCount_nonneg, of importantHeaders resp]
  by (simp add: rawScore_eq)

lemma rawScore_https: "HasPrefix url ''https://'' \<Longrightarrow> 30 \<le> rawScore resp url"
  using headerScore_nonneg [OF achievedWeightOf_nonneg, of resp]
    bonusAdded_critical_bounds [OF presentCount_nonneg, of criticalHeaders resp]
    bonusAdded_important_bounds [OF presentCount_nonneg, of importantHeaders resp]
  by (simp add: rawScore_eq httpsScore_def)

lemma rawScore_mono:
  assumes "\<And>h. h \<in> set securityHeaders \<Longrightarrow> isHeaderPresent R h \<Longrightarrow> isHeaderPresent R' h"
  shows "rawScore R url \<le> rawScore R' url"
proof -
  have "headerScore 110 (achievedWeightOf R) \<le> headerScore 110 (achievedWeightOf R')"
    using achievedWeightOf_nonneg achievedWeightOf_mono [OF assms] by (rule headerScore_mono)
  moreover have "bonusAdded criticalBonus (presentCount criticalHeaders R) \<le>
      bonusAdded criticalBonus (presentCount criticalHeaders R')"
    using presentCount_nonneg presentCount_mono [OF assms] by (rule bonusAdded_critical_mono)
  moreover have "bonusAdded importantBonus (presentCount importantHeaders R) \<le>
      bonusAdded importantBonus (presentCount importantHeaders R')"
    using presentCount_nonneg presentCount_mono [OF assms] by (rule bonusAdded_important_mono)
  ultimately show ?thesis
    by (simp add: rawScore_eq)
qed

lemma Score_bounds:
  "0 \<le> Score (scoreResponse resp url) \<and> Score (scoreResponse resp url) \<le> 100"
  using rawScore_nonneg [of resp url] by (simp add: scoreResponse_Score)

lemma gradeRank_mono: "s \<le> t \<Longrightarrow> gradeRank (calculateGrade s) \<le> gradeRank (calculateGrade t)"
  by (simp add: gradeRank_calculateGrade)

subsection \<open>Evaluating the score from the list of presences\<close>

lemma sum_filter_zip:
  fixes f :: "'a \<Rightarrow> int"
  shows "sum_list (map f (filter P xs)) =
    sum_list (map (\<lambda>(w, p). if p then w else 0) (zip (map f xs) (map P xs)))"
  by (induction xs) simp_all

lemma length_filter_zip:
  "length (filter (\<lambda>h. g h \<in> A \<and> P h) xs) =
    length (filter (\<lambda>(n, p). n \<in> A \<and> p) (zip (map g xs) (map P xs)))"
  by (induction xs) simp_all

lemma catalog_weight_list: "map Weight securityHeaders = [20, 15, 15, 20, 15, 10, 8, 7]"
  by (simp add: securityHeaders_def)

lemma achievedWeightOf_zip:
  "achievedWeightOf resp =
    sum_list (map (\<lambda>(w, p). if p then w else 0)
      (zip [20, 15, 15, 20, 15, 10, 8, 7] (map (isHeaderPresent resp) securityHeaders)))"
  by (simp only: achievedWeightOf_def sum_filter_zip catalog_weight_list)

lemma presentCount_zip:
  "presentCount names resp =
    int (length (filter (\<lambda>(n, p). n \<in> set names \<and> p)
      (zip (map Name securityHeaders) (map (isHeaderPresent resp) securityHeaders))))"
  by (simp only: presentCount_def length_filter_zip)

lemma presences:
  "map (isHeaderPresent criticalOnly) securityHeaders =
    [True, True, True, False, False, False, False, False]"
  "map (isHeaderPresent noHeaders) securityHeaders =
    [False, False, False, False, False, False, False, False]"
  "map (isHeaderPresent referrerOnly) securityHeaders =
    [False, False, False, False, True, False, False, False]"
  "map (isHeaderPresent allHeaders) securityHeaders =
    [True, True, True, True, True, True, True, True]"
  by code_simp+

lemma normalizeURL_examples:
  "normalizeURL ''example.com'' = ''https://example.com''"
  "normalizeURL ''https://example.com'' = ''https://example.com''"
  "normalizeURL ''http://example.com'' = ''http://example.com''"
  "normalizeURL ''HTTP://example.com'' = ''https://HTTP://example.com''"
  by (simp_all add: normalizeURL_def HasPrefix_def)

lemma noHeaders_absent: "\<not> isHeaderPresent noHeaders h"
  by (simp add: isHeaderPresent_iff Header_Get_def noHeaders_def)

lemma calculateGrade_letters:
  "calculateGrade s \<in> {''A'', ''B'', ''C'', ''D'', ''F''}"
  by (simp add: calculateGrade_def)

subsection \<open>The tiers\<close>

lemma tierOf_Critical: "tierOf name = Critical \<longleftrightarrow> name \<in> set criticalHeaders"
  by (simp add: tierOf_def criticalHeaders_def)

lemma tierOf_Important: "tierOf name = Important \<longleftrightarrow> name \<in> set importantHeaders"
  by (auto simp add: tierOf_def importantHeaders_def)

lemma tierCount_Critical: "tierCount Critical resp = presentCount criticalHeaders resp"
  by (simp add: tierCount_def presentCount_def tierOf_Critical)

lemma tierCount_Important: "tierCount Important resp = presentCount importantHeaders resp"
  by (simp add: tierCount_def presentCount_def tierOf_Important)

lemma tierCount_bounds:
  "0 \<le> tierCount Critical resp" "tierCount Critical resp \<le> 3"
  "0 \<le> tierCount Important resp" "tierCount Important resp \<le> 2"
  by (simp_all add: tierCount_Critical tierCount_Important presentCount_nonneg
      presentCount_critical_le presentCount_important_le)

lemma critical_table:
  "0 \<le> n \<Longrightarrow> n \<le> 3 \<Longrightarrow>
    (if n > 0 then min 10 (n * 10 div 3) else 0) = [0, 3, 6, 10] ! nat n"
proof -
  assume "0 \<le> n" "n \<le> 3"
  then consider "n = 0" | "n = 1" | "n = 2" | "n = 3"
    by linarith
  then show ?thesis
    by cases (simp_all add: numeral_2_eq_2 numeral_3_eq_3)
qed

lemma important_table:
  "0 \<le> n \<Longrightarrow> n \<le> 2 \<Longrightarrow>
    (if n > 0 then min 5 (n * 5 div 2) else 0) = [0, 2, 5] ! nat n"
proof -
  assume "0 \<le> n" "n \<le> 2"
  then consider "n = 0" | "n = 1" | "n = 2"
    by linarith
  then show ?thesis
    by cases (simp_all add: numeral_2_eq_2)
qed

lemma length_filter_zip_pred:
  "length (filter (\<lambda>h. Q (g h) \<and> P h) xs) =
    length (filter (\<lambda>(n, p). Q n \<and> p) (zip (map g xs) (map P xs)))"
  by (induction xs) simp_all

lemma tierCount_zip:
  "tierCount tier resp =
    int (length (filter (\<lambda>(n, p). tierOf n = tier \<and> p)
      (zip (map Name securityHeaders) (map (isHeaderPresent resp) securityHeaders))))"
  unfolding tierCount_def
  using length_filter_zip_pred [of "\<lambda>n. tierOf n = tier" Name "isHeaderPresent resp" securityHeaders]
  by simp

lemma presences_more:
  "map (isHeaderPresent nosniffOnly) securityHeaders =
    [False, True, False, False, False, False, False, False]"
  "map (isHeaderPresent mixedHeaders) securityHeaders =
    [True, False, True, True, True, False, False, False]"
  by code_simp+

section \<open>The claims\<close>

text \<open>
  C1, as amended. For every response and every catalog entry, the presence check returns
  true if and only if, for the entry's name or for one of its aliases, the first of the
  values that the response holds under the canonical form of that name is not empty.
  The lookup does not depend on the case of the letters of the name it is asked for.
  When the keys of the response are canonical, as they are in every header map filled
  by \<^verbatim>\<open>Add\<close>, this says: the check returns true if and only if the response holds,
  under a key equal up to the case of its letters to the name or to an alias, a list of
  values whose first value is not empty. A header whose first value is the empty string
  counts as absent, and values after the first are not looked at.
\<close>

theorem C1_presence_first_value:
  assumes "header \<in> set securityHeaders"
  shows "(isHeaderPresent resp header \<longleftrightarrow>
      (\<exists>n \<in> set (Name header # Aliases header). \<exists>v vs.
         Header resp (CanonicalMIMEHeaderKey n) = Some (v # vs) \<and> v \<noteq> '''')) \<and>
    (\<forall>n \<in> set (Name header # Aliases header). \<forall>k.
       asciiLower k = asciiLower n \<longrightarrow> Header_Get (Header resp) k = Header_Get (Header resp) n) \<and>
    (canonicalKeys (Header resp) \<longrightarrow>
      (isHeaderPresent resp header \<longleftrightarrow>
        (\<exists>n \<in> set (Name header # Aliases header). \<exists>k v vs.
           asciiLower k = asciiLower n \<and> Header resp k = Some (v # vs) \<and> v \<noteq> '''')))"
proof -
  have tokens: "tokenNames header"
    using assms catalog_tokenNames unfolding list_all_iff by blast
  have token: "list_all validHeaderFieldByte n" if "n \<in> set (Name header # Aliases header)" for n
    using tokens that unfolding tokenNames_def list_all_iff by blast
  have first: "isHeaderPresent resp header \<longleftrightarrow>
      (\<exists>n \<in> set (Name header # Aliases header). \<exists>v vs.
         Header resp (CanonicalMIMEHeaderKey n) = Some (v # vs) \<and> v \<noteq> '''')"
    unfolding isHeaderPresent_iff Header_Get_nonempty ..
  have fold: "Header_Get (Header resp) k = Header_Get (Header resp) n"
    if "n \<in> set (Name header # Aliases header)" "asciiLower k = asciiLower n" for n k
  proof -
    have "CanonicalMIMEHeaderKey k = CanonicalMIMEHeaderKey n"
      using token [OF that(1)] that(2) by (rule Canonical_cong)
    then show ?thesis
      by (simp add: Header_Get_def)
  qed
  have keys: "isHeaderPresent resp header \<longleftrightarrow>
        (\<exists>n \<in> set (Name header # Aliases header). \<exists>k v vs.
           asciiLower k = asciiLower n \<and> Header resp k = Some (v # vs) \<and> v \<noteq> '''')"
    if "canonicalKeys (Header resp)"
    using that tokens by (rule isHeaderPresent_folded)
  from first fold keys show ?thesis
    by blast
qed

text \<open>
  The amended claim at work: a response that sent only the alias, in lower case, has
  \<^verbatim>\<open>Content-Security-Policy\<close> present; a response whose only \<^verbatim>\<open>X-Frame-Options\<close> is
  empty has it absent; and a lookup in mixed case finds the value.
\<close>

theorem C1_presence_first_value_witness:
  "isHeaderPresent
     \<lparr>Header = receivedHeader Map.empty [(''content-security-policy-report-only'', ''default-src'')]\<rparr>
     (securityHeaders ! 3) \<and>
   \<not> isHeaderPresent \<lparr>Header = receivedHeader Map.empty [(''X-Frame-Options'', '''')]\<rparr>
     (securityHeaders ! 2) \<and>
   Header_Get [''X-Frame-Options'' \<mapsto> [''DENY'']] ''x-frame-OPTIONS'' = ''DENY''"
proof -
  let ?r1 = "\<lparr>Header = receivedHeader Map.empty
    [(''content-security-policy-report-only'', ''default-src'')]\<rparr>"
  let ?r2 = "\<lparr>Header = receivedHeader Map.empty [(''X-Frame-Options'', '''')]\<rparr>"
  let ?r3 = "\<lparr>Header = [''X-Frame-Options'' \<mapsto> [''DENY'']]\<rparr>"
  have h1: "Header ?r1 = [''Content-Security-Policy-Report-Only'' \<mapsto> [''default-src'']]"
    by (simp add: Header_Add_def Let_def canonical_examples)
  have h2: "Header ?r2 = [''X-Frame-Options'' \<mapsto> ['''']]"
    by (simp add: Header_Add_def Let_def canonical_examples)
  have keys1: "canonicalKeys (Header ?r1)" and keys2: "canonicalKeys (Header ?r2)"
    by (simp_all del: receivedHeader.simps add: canonicalKeys_received canonicalKeys_empty)
  have in3: "securityHeaders ! 3 \<in> set securityHeaders"
    and in2: "securityHeaders ! 2 \<in> set securityHeaders"
    by (simp_all add: catalog_length)
  have names3: "''Content-Security-Policy-Report-Only'' \<in>
      set (Name (securityHeaders ! 3) # Aliases (securityHeaders ! 3))"
    and names2: "''X-Frame-Options'' \<in> set (Name (securityHeaders ! 2) # Aliases (securityHeaders ! 2))"
    by (simp_all add: securityHeaders_def)
  have "\<exists>k v vs. asciiLower k = asciiLower ''Content-Security-Policy-Report-Only'' \<and>
      Header ?r1 k = Some (v # vs) \<and> v \<noteq> ''''"
    unfolding h1
    by (intro exI [of _ "''Content-Security-Policy-Report-Only''"] exI [of _ "''default-src''"]
        exI [of _ "[]"]) simp
  with names3 keys1 have one: "isHeaderPresent ?r1 (securityHeaders ! 3)"
    using C1_presence_first_value [OF in3, of ?r1] by blast
  have "\<not> (\<exists>n \<in> set (Name (securityHeaders ! 2) # Aliases (securityHeaders ! 2)). \<exists>k v vs.
      asciiLower k = asciiLower n \<and> Header ?r2 k = Some (v # vs) \<and> v \<noteq> '''')"
    unfolding h2 by (auto split: if_splits)
  with keys2 have two: "\<not> isHeaderPresent ?r2 (securityHeaders ! 2)"
    using C1_presence_first_value [OF in2, of ?r2] by blast
  have "asciiLower ''x-frame-OPTIONS'' = asciiLower ''X-Frame-Options''"
    by code_simp
  with names2 have "Header_Get (Header ?r3) ''x-frame-OPTIONS'' = Header_Get (Header ?r3) ''X-Frame-Options''"
    using C1_presence_first_value [OF in2, of ?r3] by blast
  moreover have "Header_Get (Header ?r3) ''X-Frame-Options'' = ''DENY''"
    by code_simp
  ultimately have three: "Header_Get [''X-Frame-Options'' \<mapsto> [''DENY'']] ''x-frame-OPTIONS'' = ''DENY''"
    by simp
  from one two three show ?thesis
    by blast
qed

text \<open>
  C1 as stated fails. The response \<open>emptyThenDeny\<close>, with two \<^verbatim>\<open>X-Frame-Options\<close>
  field lines, holds the header with the values \<^verbatim>\<open>""\<close> and \<^verbatim>\<open>DENY\<close>, so with a
  non-empty value; the presence check reads the first value only and returns false.
\<close>

theorem C1_any_value_counterexample:
  "Header emptyThenDeny ''X-Frame-Options'' = Some ['''', ''DENY''] \<and>
   Name (securityHeaders ! 2) = ''X-Frame-Options'' \<and>
   presentAsClaimed emptyThenDeny (securityHeaders ! 2) \<and>
   \<not> isHeaderPresent emptyThenDeny (securityHeaders ! 2)"
proof -
  have "Header emptyThenDeny ''X-Frame-Options'' = Some ['''', ''DENY'']"
    by (simp add: emptyThenDeny_def Header_Add_def Let_def canonical_examples)
  moreover have "Name (securityHeaders ! 2) = ''X-Frame-Options''"
    by (simp add: securityHeaders_def)
  moreover have "presentAsClaimed emptyThenDeny (securityHeaders ! 2)"
    by code_simp
  moreover have "\<not> isHeaderPresent emptyThenDeny (securityHeaders ! 2)"
    by code_simp
  ultimately show ?thesis
    by blast
qed

text \<open>
  C2. For the input URL \<^verbatim>\<open>example.com\<close> and a response in which exactly the three
  critical headers are present, the analysis fetches and reports
  \<^verbatim>\<open>https://example.com\<close>; the loop ends with a total weight of 110 and an achieved
  weight of 50, the header score is 31, the HTTPS score 30, the critical count 3 with a
  bonus of 10, the important count 0 with no bonus, and the result has score 71 and
  grade B.
\<close>

theorem C2_scenario_critical_only:
  assumes fetch: "clientGet ''https://example.com'' = Inr resp"
    and present: "map (isHeaderPresent resp) securityHeaders =
      [True, True, True, False, False, False, False, False]"
  shows "\<exists>r. AnalyzeURL clientGet ''example.com'' = (Some r, None) \<and>
      URL r = ''https://example.com'' \<and>
      map Name (filter (isHeaderPresent resp) securityHeaders) = criticalHeaders \<and>
      snd (headerLoop resp securityHeaders (newResult (URL r), 0, 0)) = (110, 50) \<and>
      headerScore 110 50 = 31 \<and> httpsScore (URL r) = 30 \<and>
      countCriticalHeaders (Summary r) = 3 \<and> criticalBonus 3 = 10 \<and>
      countImportantHeaders (Summary r) = 0 \<and> bonusAdded importantBonus 0 = 0 \<and>
      rawScore resp (URL r) = 71 \<and> Score r = 71 \<and> Grade r = ''B''"
proof -
  let ?url = "''https://example.com''"
  let ?r = "scoreResponse resp ?url"
  have run: "AnalyzeURL clientGet ''example.com'' = (Some ?r, None)"
    using fetch AnalyzeURL_ok [of clientGet "''example.com''" resp]
    by (simp add: normalizeURL_examples)
  have url: "URL ?r = ?url"
    by (rule scoreResponse_URL)
  have names: "map Name (filter (isHeaderPresent resp) securityHeaders) = criticalHeaders"
    using present by (simp add: securityHeaders_def criticalHeaders_def)
  have achieved: "achievedWeightOf resp = 50"
    by (simp add: achievedWeightOf_zip present)
  have critical: "presentCount criticalHeaders resp = 3"
    by (simp add: presentCount_zip present catalog_names criticalHeaders_def)
  have important: "presentCount importantHeaders resp = 0"
    by (simp add: presentCount_zip present catalog_names importantHeaders_def)
  have loop: "snd (headerLoop resp securityHeaders (newResult ?url, 0, 0)) = (110, 50)"
    by (simp add: headerLoop_catalog achieved)
  have hs: "headerScore 110 50 = 31"
    by (simp add: headerScore_110)
  have https: "httpsScore ?url = 30"
    by (simp add: httpsScore_def HasPrefix_def)
  have cb: "criticalBonus 3 = 10"
    by (simp add: criticalBonus_eq)
  have ib: "bonusAdded importantBonus 0 = 0"
    by (simp add: bonusAdded_def)
  have raw: "rawScore resp ?url = 71"
    by (simp add: rawScore_eq achieved critical important hs https ib bonusAdded_def cb)
  have score: "Score ?r = 71"
    by (simp add: scoreResponse_Score raw)
  have grade: "Grade ?r = ''B''"
    by (simp add: scoreResponse_Grade score calculateGrade_def)
  have cc: "countCriticalHeaders (Summary ?r) = 3"
    by (simp add: scoreResponse_Summary count_catalog critical)
  have ic: "countImportantHeaders (Summary ?r) = 0"
    by (simp add: scoreResponse_Summary count_catalog important)
  show ?thesis
    using run url names loop hs https cc cb ic ib raw score grade by simp
qed

theorem C2_scenario_critical_only_witness:
  "\<exists>r. AnalyzeURL (\<lambda>url. Inr criticalOnly) ''example.com'' = (Some r, None) \<and>
     URL r = ''https://example.com'' \<and> Score r = 71 \<and> Grade r = ''B''"
proof -
  have "(\<lambda>url. Inr criticalOnly :: error + Response) ''https://example.com'' = Inr criticalOnly"
    by simp
  from C2_scenario_critical_only [OF this presences(1)] show ?thesis
    by blast
qed

text \<open>
  C3. The grade is a total function of the integer score over five contiguous ranges:
  A from 80, B from 65 to 79, C from 45 to 64, D from 25 to 44, F below 25. Exactly 80
  gives A and exactly 65 gives B, and a higher score never gives a worse grade.
\<close>

theorem C3_grade_ranges:
  "(s \<ge> 80 \<longrightarrow> calculateGrade s = ''A'') \<and>
   (65 \<le> s \<and> s < 80 \<longrightarrow> calculateGrade s = ''B'') \<and>
   (45 \<le> s \<and> s < 65 \<longrightarrow> calculateGrade s = ''C'') \<and>
   (25 \<le> s \<and> s < 45 \<longrightarrow> calculateGrade s = ''D'') \<and>
   (s < 25 \<longrightarrow> calculateGrade s = ''F'') \<and>
   calculateGrade 80 = ''A'' \<and> calculateGrade 65 = ''B'' \<and>
   (s \<le> t \<longrightarrow> gradeRank (calculateGrade s) \<le> gradeRank (calculateGrade t))"
proof -
  have ranges:
    "(s \<ge> 80 \<longrightarrow> calculateGrade s = ''A'') \<and>
     (65 \<le> s \<and> s < 80 \<longrightarrow> calculateGrade s = ''B'') \<and>
     (45 \<le> s \<and> s < 65 \<longrightarrow> calculateGrade s = ''C'') \<and>
     (25 \<le> s \<and> s < 45 \<longrightarrow> calculateGrade s = ''D'') \<and>
     (s < 25 \<longrightarrow> calculateGrade s = ''F'')"
    by (simp add: calculateGrade_def)
  have ties: "calculateGrade 80 = ''A'' \<and> calculateGrade 65 = ''B''"
    by (simp add: calculateGrade_def)
  have mono: "s \<le> t \<longrightarrow> gradeRank (calculateGrade s) \<le> gradeRank (calculateGrade t)"
    by (simp add: gradeRank_calculateGrade)
  from ranges ties mono show ?thesis
    by blast
qed

theorem C3_grade_ranges_witness:
  "calculateGrade 79 = ''B'' \<and> calculateGrade 64 = ''C'' \<and> calculateGrade 44 = ''D'' \<and>
   calculateGrade 24 = ''F'' \<and> calculateGrade 100 = ''A'' \<and>
   gradeRank (calculateGrade 64) \<le> gradeRank (calculateGrade 79)"
  using C3_grade_ranges [of 79 79] C3_grade_ranges [of 64 79] C3_grade_ranges [of 44 44]
    C3_grade_ranges [of 24 24] C3_grade_ranges [of 100 100]
  by (simp add: gradeRank_def)

text \<open>
  C4. Whatever the response and the URL, the score of the result lies between 0 and
  100: the sum of header score, HTTPS score and the two bonuses is never negative, and
  the score is that sum, or exactly 100 when the sum is above 100.
\<close>

theorem C4_score_range:
  assumes "clientGet (normalizeURL url) = Inr resp"
  shows "\<exists>r. AnalyzeURL clientGet url = (Some r, None) \<and>
      0 \<le> Score r \<and> Score r \<le> 100 \<and>
      0 \<le> rawScore resp (normalizeURL url) \<and>
      Score r = (if rawScore resp (normalizeURL url) > 100 then 100
                 else rawScore resp (normalizeURL url))"
  using assms AnalyzeURL_ok [of clientGet url resp] Score_bounds [of resp "normalizeURL url"]
    rawScore_nonneg [of resp "normalizeURL url"]
    scoreResponse_Score [of resp "normalizeURL url"]
  by simp

theorem C4_score_range_witness:
  "\<exists>r. AnalyzeURL (\<lambda>url. Inr allHeaders) ''https://example.com'' = (Some r, None) \<and>
     rawScore allHeaders ''https://example.com'' = 115 \<and> Score r = 100"
proof -
  have fetch: "(\<lambda>url. Inr allHeaders :: error + Response) (normalizeURL ''https://example.com'') =
      Inr allHeaders"
    by simp
  have "achievedWeightOf allHeaders = 110"
    by (simp add: achievedWeightOf_zip presences)
  moreover have "presentCount criticalHeaders allHeaders = 3"
    by (simp add: presentCount_zip presences catalog_names criticalHeaders_def)
  moreover have "presentCount importantHeaders allHeaders = 2"
    by (simp add: presentCount_zip presences catalog_names importantHeaders_def)
  ultimately have raw: "rawScore allHeaders ''https://example.com'' = 115"
    by (simp add: rawScore_eq headerScore_110 httpsScore_def HasPrefix_def
        bonusAdded_critical bonusAdded_important)
  show ?thesis
    using C4_score_range [of "\<lambda>url. Inr allHeaders" "''https://example.com''" allHeaders] fetch raw
    by (auto simp add: normalizeURL_examples)
qed

text \<open>
  C5. Normalisation of the URL is defined on every string: a string that starts neither
  with \<^verbatim>\<open>http://\<close> nor with \<^verbatim>\<open>https://\<close>, compared byte by byte, gets \<^verbatim>\<open>https://\<close>
  in front; any other string is left as it is. The normalised string is the one that is
  fetched and the one the result carries in its field \<^verbatim>\<open>url\<close>.
\<close>

theorem C5_url_normalisation:
  "(\<not> prefix ''http://'' url \<and> \<not> prefix ''https://'' url \<longrightarrow>
      normalizeURL url = ''https://'' @ url) \<and>
   (prefix ''http://'' url \<or> prefix ''https://'' url \<longrightarrow> normalizeURL url = url) \<and>
   (\<forall>resp. clientGet (normalizeURL url) = Inr resp \<longrightarrow>
      (\<exists>r. AnalyzeURL clientGet url = (Some r, None) \<and> URL r = normalizeURL url)) \<and>
   (\<forall>r. fst (AnalyzeURL clientGet url) = Some r \<longrightarrow> URL r = normalizeURL url)"
proof -
  have "URL r = normalizeURL url" if "fst (AnalyzeURL clientGet url) = Some r" for r
    using that by (auto simp add: AnalyzeURL_def Let_def scoreResponse_URL split: sum.splits)
  then show ?thesis
    by (auto simp add: normalizeURL_def HasPrefix_iff_prefix AnalyzeURL_ok scoreResponse_URL)
qed

theorem C5_url_normalisation_witness:
  "normalizeURL ''example.com'' = ''https://example.com'' \<and>
   normalizeURL ''http://example.com'' = ''http://example.com'' \<and>
   normalizeURL ''https://example.com'' = ''https://example.com'' \<and>
   normalizeURL ''HTTP://example.com'' = ''https://HTTP://example.com'' \<and>
   (\<exists>r. AnalyzeURL (\<lambda>url. Inr noHeaders) ''example.com'' = (Some r, None) \<and>
      URL r = ''https://example.com'')"
  using C5_url_normalisation [of "''example.com''" "\<lambda>url. Inr noHeaders"]
    C5_url_normalisation [of "''http://example.com''" "\<lambda>url. Inr noHeaders"]
    C5_url_normalisation [of "''https://example.com''" "\<lambda>url. Inr noHeaders"]
    C5_url_normalisation [of "''HTTP://example.com''" "\<lambda>url. Inr noHeaders"]
  by (simp add: normalizeURL_examples)

text \<open>
  C6. The bonuses follow the integer division of the program. A positive count \<open>c\<close> of
  critical headers gives the bonus \<open>min 10 (c * 10 div 3)\<close>, that is 3, 6 and 10 for
  one, two and three headers; a positive count \<open>i\<close> of important headers gives
  \<open>min 5 (i * 5 div 2)\<close>, that is 2 and 5. The two counts the analysis computes are the
  numbers of present headers among \<^verbatim>\<open>Strict-Transport-Security\<close>,
  \<^verbatim>\<open>X-Content-Type-Options\<close>, \<^verbatim>\<open>X-Frame-Options\<close> and among
  \<^verbatim>\<open>Content-Security-Policy\<close>, \<^verbatim>\<open>Referrer-Policy\<close>, at most 3 and at most 2. The score
  is the header score plus the HTTPS score plus these two bonuses, capped at 100, where
  a count of 0 adds nothing: the bonus added is 0, 3, 6 or 10 for the critical tier and
  0, 2 or 5 for the important tier.
\<close>

theorem C6_bonus_tiers:
  "(c > 0 \<longrightarrow> criticalBonus c = min 10 (c * 10 div 3)) \<and>
   criticalBonus 1 = 3 \<and> criticalBonus 2 = 6 \<and> criticalBonus 3 = 10 \<and>
   (i > 0 \<longrightarrow> importantBonus i = min 5 (i * 5 div 2)) \<and>
   importantBonus 1 = 2 \<and> importantBonus 2 = 5 \<and>
   countCriticalHeaders (Summary (scoreResponse resp url)) = tierCount Critical resp \<and>
   countImportantHeaders (Summary (scoreResponse resp url)) = tierCount Important resp \<and>
   0 \<le> tierCount Critical resp \<and> tierCount Critical resp \<le> 3 \<and>
   0 \<le> tierCount Important resp \<and> tierCount Important resp \<le> 2 \<and>
   Score (scoreResponse resp url) =
     min 100
       (headerScore 110 (achievedWeightOf resp) + httpsScore url +
        (if tierCount Critical resp > 0
         then min 10 (tierCount Critical resp * 10 div 3) else 0) +
        (if tierCount Important resp > 0
         then min 5 (tierCount Important resp * 5 div 2) else 0)) \<and>
   (if tierCount Critical resp > 0 then min 10 (tierCount Critical resp * 10 div 3) else 0) =
     [0, 3, 6, 10] ! nat (tierCount Critical resp) \<and>
   (if tierCount Important resp > 0 then min 5 (tierCount Important resp * 5 div 2) else 0) =
     [0, 2, 5] ! nat (tierCount Important resp)"
proof -
  let ?cc = "tierCount Critical resp" and ?ic = "tierCount Important resp"
  have cc: "countCriticalHeaders (Summary (scoreResponse resp url)) = ?cc"
    by (simp only: scoreResponse_Summary count_catalog tierCount_Critical)
  have ic: "countImportantHeaders (Summary (scoreResponse resp url)) = ?ic"
    by (simp only: scoreResponse_Summary count_catalog tierCount_Important)
  have cadd: "bonusAdded criticalBonus ?cc = (if ?cc > 0 then min 10 (?cc * 10 div 3) else 0)"
    using tierCount_bounds(1) [of resp] by (simp add: bonusAdded_def criticalBonus_eq)
  have iadd: "bonusAdded importantBonus ?ic = (if ?ic > 0 then min 5 (?ic * 5 div 2) else 0)"
    using tierCount_bounds(3) [of resp] by (simp add: bonusAdded_def importantBonus_eq)
  have raw: "rawScore resp url =
      headerScore 110 (achievedWeightOf resp) + httpsScore url +
      (if ?cc > 0 then min 10 (?cc * 10 div 3) else 0) +
      (if ?ic > 0 then min 5 (?ic * 5 div 2) else 0)"
    by (simp only: rawScore_eq tierCount_Critical [symmetric] tierCount_Important [symmetric]
        cadd iadd)
  have score: "Score (scoreResponse resp url) =
     min 100
       (headerScore 110 (achievedWeightOf resp) + httpsScore url +
        (if ?cc > 0 then min 10 (?cc * 10 div 3) else 0) +
        (if ?ic > 0 then min 5 (?ic * 5 div 2) else 0))"
    unfolding scoreResponse_Score raw by (simp add: min_def)
  have ctable: "(if ?cc > 0 then min 10 (?cc * 10 div 3) else 0) = [0, 3, 6, 10] ! nat ?cc"
    using tierCount_bounds(1,2) [of resp] by (rule critical_table)
  have itable: "(if ?ic > 0 then min 5 (?ic * 5 div 2) else 0) = [0, 2, 5] ! nat ?ic"
    using tierCount_bounds(3,4) [of resp] by (rule important_table)
  have cformula: "c > 0 \<longrightarrow> criticalBonus c = min 10 (c * 10 div 3)"
    by (simp add: criticalBonus_eq)
  have iformula: "i > 0 \<longrightarrow> importantBonus i = min 5 (i * 5 div 2)"
    by (simp add: importantBonus_eq)
  have cvalues: "criticalBonus 1 = 3 \<and> criticalBonus 2 = 6 \<and> criticalBonus 3 = 10"
    by (simp add: criticalBonus_eq)
  have ivalues: "importantBonus 1 = 2 \<and> importantBonus 2 = 5"
    by (simp add: importantBonus_eq)
  from cformula cvalues iformula ivalues cc ic tierCount_bounds [of resp] score ctable itable
  show ?thesis
    by blast
qed

text \<open>
  The bonuses at four responses over HTTPS: the three critical headers (count 3, bonus
  10, score 71); one critical header (count 1, bonus 3, score 42); two critical and two
  important headers (bonuses 6 and 5, score 85); one important header (bonus 2, score
  41).
\<close>

theorem C6_bonus_tiers_witness:
  "criticalBonus 2 = min 10 (2 * 10 div 3) \<and> importantBonus 1 = min 5 (1 * 5 div 2) \<and>
   countCriticalHeaders (Summary (scoreResponse criticalOnly ''https://example.com'')) = 3 \<and>
   countImportantHeaders (Summary (scoreResponse criticalOnly ''https://example.com'')) = 0 \<and>
   Score (scoreResponse criticalOnly ''https://example.com'') = 71 \<and>
   countCriticalHeaders (Summary (scoreResponse nosniffOnly ''https://example.com'')) = 1 \<and>
   Score (scoreResponse nosniffOnly ''https://example.com'') = 42 \<and>
   countCriticalHeaders (Summary (scoreResponse mixedHeaders ''https://example.com'')) = 2 \<and>
   countImportantHeaders (Summary (scoreResponse mixedHeaders ''https://example.com'')) = 2 \<and>
   Score (scoreResponse mixedHeaders ''https://example.com'') = 85 \<and>
   countCriticalHeaders (Summary (scoreResponse referrerOnly ''https://example.com'')) = 0 \<and>
   countImportantHeaders (Summary (scoreResponse referrerOnly ''https://example.com'')) = 1 \<and>
   Score (scoreResponse referrerOnly ''https://example.com'') = 41"
proof -
  let ?url = "''https://example.com''"
  have https: "httpsScore ?url = 30"
    by (simp add: httpsScore_def HasPrefix_def)
  have tiers: "tierOf ''Strict-Transport-Security'' = Critical"
    "tierOf ''X-Content-Type-Options'' = Critical" "tierOf ''X-Frame-Options'' = Critical"
    "tierOf ''Content-Security-Policy'' = Important" "tierOf ''Referrer-Policy'' = Important"
    "tierOf ''Permissions-Policy'' = Recommended"
    "tierOf ''Cross-Origin-Opener-Policy'' = Recommended"
    "tierOf ''Cross-Origin-Resource-Policy'' = Recommended"
    by (simp_all add: tierOf_def)
  have a1: "achievedWeightOf criticalOnly = 50" "tierCount Critical criticalOnly = 3"
    "tierCount Important criticalOnly = 0"
    by (simp_all add: achievedWeightOf_zip tierCount_zip presences catalog_names tiers)
  have a2: "achievedWeightOf nosniffOnly = 15" "tierCount Critical nosniffOnly = 1"
    "tierCount Important nosniffOnly = 0"
    by (simp_all add: achievedWeightOf_zip tierCount_zip presences_more catalog_names tiers)
  have a3: "achievedWeightOf mixedHeaders = 70" "tierCount Critical mixedHeaders = 2"
    "tierCount Important mixedHeaders = 2"
    by (simp_all add: achievedWeightOf_zip tierCount_zip presences_more catalog_names tiers)
  have a4: "achievedWeightOf referrerOnly = 15" "tierCount Critical referrerOnly = 0"
    "tierCount Important referrerOnly = 1"
    by (simp_all add: achievedWeightOf_zip tierCount_zip presences catalog_names tiers)
  have hs: "headerScore 110 50 = 31" "headerScore 110 15 = 9" "headerScore 110 70 = 44"
    by (simp_all add: headerScore_110)
  show ?thesis
    using C6_bonus_tiers [of 2 1 criticalOnly ?url] C6_bonus_tiers [of 2 1 nosniffOnly ?url]
      C6_bonus_tiers [of 2 1 mixedHeaders ?url] C6_bonus_tiers [of 2 1 referrerOnly ?url]
    by (simp add: a1 a2 a3 a4 hs https)
qed

text \<open>
  C7. In every result the summary has one entry for each of the 8 catalog entries, in
  the order of the catalog, with the name, description, weight and aliases of the entry
  and its presence in the response; the keys of the map of headers are the 8 names of
  the catalog, and each is mapped to the presence its summary entry carries.
\<close>

theorem C7_summary_and_headers:
  assumes "clientGet (normalizeURL url) = Inr resp"
  shows "\<exists>r. AnalyzeURL clientGet url = (Some r, None) \<and>
      length (Summary r) = 8 \<and> length securityHeaders = 8 \<and>
      (\<forall>i < 8.
         Name (Summary r ! i) = Name (securityHeaders ! i) \<and>
         Present (Summary r ! i) = isHeaderPresent resp (securityHeaders ! i) \<and>
         Description (Summary r ! i) = Description (securityHeaders ! i) \<and>
         Weight (Summary r ! i) = Weight (securityHeaders ! i) \<and>
         Aliases (Summary r ! i) = Aliases (securityHeaders ! i)) \<and>
      dom (Headers r) = set (map Name securityHeaders) \<and>
      card (dom (Headers r)) = 8 \<and>
      (\<forall>s \<in> set (Summary r). Headers r (Name s) = Some (Present s))"
proof -
  let ?r = "scoreResponse resp (normalizeURL url)"
  have run: "AnalyzeURL clientGet url = (Some ?r, None)"
    using assms by (rule AnalyzeURL_ok)
  have summary: "Summary ?r = map (summaryItemOf resp) securityHeaders"
    by (rule scoreResponse_Summary)
  have len: "length (Summary ?r) = 8"
    by (simp add: summary catalog_length)
  have items: "Name (Summary ?r ! i) = Name (securityHeaders ! i) \<and>
         Present (Summary ?r ! i) = isHeaderPresent resp (securityHeaders ! i) \<and>
         Description (Summary ?r ! i) = Description (securityHeaders ! i) \<and>
         Weight (Summary ?r ! i) = Weight (securityHeaders ! i) \<and>
         Aliases (Summary ?r ! i) = Aliases (securityHeaders ! i)" if "i < 8" for i
    using that by (simp add: summary catalog_length summaryItemOf_def)
  have dom: "dom (Headers ?r) = set (map Name securityHeaders)"
    by (simp add: scoreResponse_Headers foldl_headers_dom)
  have card: "card (dom (Headers ?r)) = 8"
    using catalog_distinct by (simp add: dom distinct_card catalog_length del: set_map)
  have lookup: "Headers ?r (Name s) = Some (Present s)" if "s \<in> set (Summary ?r)" for s
  proof -
    from that obtain h where h: "h \<in> set securityHeaders" "s = summaryItemOf resp h"
      unfolding summary by auto
    have "Headers ?r (Name h) = Some (isHeaderPresent resp h)"
      unfolding scoreResponse_Headers using catalog_distinct h(1) by (rule foldl_headers_lookup)
    then show ?thesis
      by (simp add: h(2) summaryItemOf_def)
  qed
  show ?thesis
    using run len catalog_length items dom card lookup by blast
qed

theorem C7_summary_and_headers_witness:
  "\<exists>r. AnalyzeURL (\<lambda>url. Inr criticalOnly) ''example.com'' = (Some r, None) \<and>
     length (Summary r) = 8 \<and>
     Name (Summary r ! 2) = ''X-Frame-Options'' \<and> Present (Summary r ! 2) \<and>
     Name (Summary r ! 4) = ''Referrer-Policy'' \<and> \<not> Present (Summary r ! 4) \<and>
     Headers r ''X-Frame-Options'' = Some True \<and> Headers r ''Referrer-Policy'' = Some False \<and>
     card (dom (Headers r)) = 8"
proof -
  have fetch: "(\<lambda>url. Inr criticalOnly :: error + Response) (normalizeURL ''example.com'') =
      Inr criticalOnly"
    by simp
  from C7_summary_and_headers [of "\<lambda>url. Inr criticalOnly" "''example.com''" criticalOnly, OF fetch]
  obtain r where r: "AnalyzeURL (\<lambda>url. Inr criticalOnly) ''example.com'' = (Some r, None)"
      "length (Summary r) = 8"
      "\<forall>i < 8.
         Name (Summary r ! i) = Name (securityHeaders ! i) \<and>
         Present (Summary r ! i) = isHeaderPresent criticalOnly (securityHeaders ! i) \<and>
         Description (Summary r ! i) = Description (securityHeaders ! i) \<and>
         Weight (Summary r ! i) = Weight (securityHeaders ! i) \<and>
         Aliases (Summary r ! i) = Aliases (securityHeaders ! i)"
      "card (dom (Headers r)) = 8"
      "\<forall>s \<in> set (Summary r). Headers r (Name s) = Some (Present s)"
    by blast
  have p2: "isHeaderPresent criticalOnly (securityHeaders ! 2)"
    and p4: "\<not> isHeaderPresent criticalOnly (securityHeaders ! 4)"
    by code_simp+
  have n2: "Name (securityHeaders ! 2) = ''X-Frame-Options''"
    and n4: "Name (securityHeaders ! 4) = ''Referrer-Policy''"
    by (simp_all add: securityHeaders_def)
  have s2: "Name (Summary r ! 2) = ''X-Frame-Options''" "Present (Summary r ! 2)"
    using r(3) p2 n2 by simp_all
  have s4: "Name (Summary r ! 4) = ''Referrer-Policy''" "\<not> Present (Summary r ! 4)"
    using r(3) p4 n4 by simp_all
  have "Summary r ! 2 \<in> set (Summary r)" "Summary r ! 4 \<in> set (Summary r)"
    using r(2) by simp_all
  then have "Headers r (Name (Summary r ! 2)) = Some (Present (Summary r ! 2))"
    "Headers r (Name (Summary r ! 4)) = Some (Present (Summary r ! 4))"
    using r(5) by blast+
  then have "Headers r ''X-Frame-Options'' = Some True" "Headers r ''Referrer-Policy'' = Some False"
    using s2 s4 by simp_all
  then show ?thesis
    using r(1,2,4) s2 s4 by blast
qed

text \<open>
  C8. For every input URL the analysis ends in one of two ways. When the fetch fails it
  returns that error and no result. When the fetch succeeds it returns no error and a
  result with every field set: the normalised URL, one summary entry for each catalog
  entry, a map of headers whose keys are the catalog names, the capped score and the
  grade of that score. A result never comes with an error, and never is neither
  returned.
\<close>

theorem C8_result_or_error:
  "((\<exists>err. clientGet (normalizeURL url) = Inl err \<and>
        AnalyzeURL clientGet url = (None, Some err)) \<or>
    (\<exists>resp r. clientGet (normalizeURL url) = Inr resp \<and>
        AnalyzeURL clientGet url = (Some r, None) \<and>
        URL r = normalizeURL url \<and>
        length (Summary r) = length securityHeaders \<and>
        dom (Headers r) = set (map Name securityHeaders) \<and>
        Score r = min 100 (rawScore resp (normalizeURL url)) \<and>
        Grade r = calculateGrade (Score r) \<and>
        Grade r \<in> {''A'', ''B'', ''C'', ''D'', ''F''})) \<and>
   (fst (AnalyzeURL clientGet url) = None) = (snd (AnalyzeURL clientGet url) \<noteq> None)"
proof (cases "clientGet (normalizeURL url)")
  case (Inl err)
  then have "AnalyzeURL clientGet url = (None, Some err)"
    by (rule AnalyzeURL_error)
  with Inl show ?thesis by simp
next
  case (Inr resp)
  let ?r = "scoreResponse resp (normalizeURL url)"
  have run: "AnalyzeURL clientGet url = (Some ?r, None)"
    using Inr by (rule AnalyzeURL_ok)
  have "URL ?r = normalizeURL url"
    by (rule scoreResponse_URL)
  moreover have "length (Summary ?r) = length securityHeaders"
    by (simp add: scoreResponse_Summary)
  moreover have "dom (Headers ?r) = set (map Name securityHeaders)"
    by (simp add: scoreResponse_Headers foldl_headers_dom)
  moreover have "Score ?r = min 100 (rawScore resp (normalizeURL url))"
    by (simp add: scoreResponse_Score min_def)
  moreover have "Grade ?r = calculateGrade (Score ?r)"
    by (rule scoreResponse_Grade)
  moreover have "Grade ?r \<in> {''A'', ''B'', ''C'', ''D'', ''F''}"
    unfolding scoreResponse_Grade by (rule calculateGrade_letters)
  ultimately show ?thesis
    using Inr run by simp
qed

theorem C8_result_or_error_witness:
  "AnalyzeURL (\<lambda>url. Inl (Error ''no such host'')) ''unreachable.invalid'' =
     (None, Some (Error ''no such host'')) \<and>
   (\<exists>r. AnalyzeURL (\<lambda>url. Inr noHeaders) ''http://example.com'' = (Some r, None) \<and>
      URL r = ''http://example.com'' \<and> length (Summary r) = 8 \<and> Grade r = calculateGrade (Score r))"
  using C8_result_or_error [of "\<lambda>url. Inl (Error ''no such host'')" "''unreachable.invalid''"]
    C8_result_or_error [of "\<lambda>url. Inr noHeaders" "''http://example.com''"]
  by (auto simp add: normalizeURL_examples catalog_length)

text \<open>
  C9. The score is monotonic in the set of present headers: for the same URL, if every
  catalog header that is present in the response \<open>R\<close> is present in the response \<open>R'\<close>,
  then the score for \<open>R\<close> is at most the score for \<open>R'\<close>, and the grade for \<open>R'\<close> is at
  least as good.
\<close>

theorem C9_score_monotonic:
  assumes "clientGet (normalizeURL url) = Inr R" and "clientGet' (normalizeURL url) = Inr R'"
    and "\<forall>h \<in> set securityHeaders. isHeaderPresent R h \<longrightarrow> isHeaderPresent R' h"
  shows "\<exists>r r'. AnalyzeURL clientGet url = (Some r, None) \<and>
      AnalyzeURL clientGet' url = (Some r', None) \<and>
      URL r = URL r' \<and> Score r \<le> Score r' \<and> gradeRank (Grade r) \<le> gradeRank (Grade r')"
proof -
  let ?url = "normalizeURL url"
  have raw: "rawScore R ?url \<le> rawScore R' ?url"
    by (rule rawScore_mono) (use assms(3) in blast)
  then have score: "Score (scoreResponse R ?url) \<le> Score (scoreResponse R' ?url)"
    by (simp add: scoreResponse_Score)
  then have "gradeRank (Grade (scoreResponse R ?url)) \<le> gradeRank (Grade (scoreResponse R' ?url))"
    unfolding scoreResponse_Grade by (rule gradeRank_mono)
  with score show ?thesis
    using AnalyzeURL_ok [of clientGet url R] AnalyzeURL_ok [of clientGet' url R'] assms(1,2)
    by (simp add: scoreResponse_URL)
qed

theorem C9_score_monotonic_witness:
  "\<exists>r r'. AnalyzeURL (\<lambda>url. Inr noHeaders) ''example.com'' = (Some r, None) \<and>
     AnalyzeURL (\<lambda>url. Inr criticalOnly) ''example.com'' = (Some r', None) \<and>
     Score r \<le> Score r' \<and> gradeRank (Grade r) \<le> gradeRank (Grade r')"
proof -
  have "\<forall>h \<in> set securityHeaders. isHeaderPresent noHeaders h \<longrightarrow> isHeaderPresent criticalOnly h"
    by (simp add: noHeaders_absent)
  moreover have "(\<lambda>url. Inr noHeaders :: error + Response) (normalizeURL ''example.com'') = Inr noHeaders"
    "(\<lambda>url. Inr criticalOnly :: error + Response) (normalizeURL ''example.com'') = Inr criticalOnly"
    by simp_all
  ultimately show ?thesis
    using C9_score_monotonic [of "\<lambda>url. Inr noHeaders" "''example.com''" noHeaders
        "\<lambda>url. Inr criticalOnly" criticalOnly]
    by blast
qed

text \<open>
  C10. When the normalised URL starts with \<^verbatim>\<open>https://\<close>, the score is at least 30
  whichever headers are present, so the grade is never F: it is D or better.
\<close>

theorem C10_https_floor:
  assumes "HasPrefix (normalizeURL url) ''https://''" and "clientGet (normalizeURL url) = Inr resp"
  shows "\<exists>r. AnalyzeURL clientGet url = (Some r, None) \<and>
      30 \<le> Score r \<and> Grade r \<noteq> ''F'' \<and> Grade r \<in> {''A'', ''B'', ''C'', ''D''} \<and>
      1 \<le> gradeRank (Grade r)"
proof -
  let ?r = "scoreResponse resp (normalizeURL url)"
  have "30 \<le> rawScore resp (normalizeURL url)"
    using assms(1) by (rule rawScore_https)
  then have score: "30 \<le> Score ?r"
    by (simp add: scoreResponse_Score)
  then have "Grade ?r \<in> {''A'', ''B'', ''C'', ''D''}"
    unfolding scoreResponse_Grade by (simp add: calculateGrade_def)
  moreover from score have "1 \<le> gradeRank (Grade ?r)"
    unfolding scoreResponse_Grade by (simp add: gradeRank_calculateGrade)
  moreover from score have "Grade ?r \<noteq> ''F''"
    unfolding scoreResponse_Grade by (simp add: calculateGrade_def)
  ultimately show ?thesis
    using score AnalyzeURL_ok [of clientGet url resp] assms(2) by simp
qed

theorem C10_https_floor_witness:
  "\<exists>r. AnalyzeURL (\<lambda>url. Inr noHeaders) ''example.com'' = (Some r, None) \<and>
     30 \<le> Score r \<and> Grade r \<in> {''A'', ''B'', ''C'', ''D''}"
proof -
  have "HasPrefix (normalizeURL ''example.com'') ''https://''"
    by (simp add: normalizeURL_examples HasPrefix_def)
  moreover have "(\<lambda>url. Inr noHeaders :: error + Response) (normalizeURL ''example.com'') = Inr noHeaders"
    by simp
  ultimately show ?thesis
    using C10_https_floor [of "''example.com''" "\<lambda>url. Inr noHeaders" noHeaders]
    by blast
qed

section \<open>Further properties\<close>

text \<open>
  X1. Scenario B of the specification: no catalog header present and the URL
  \<^verbatim>\<open>http://example.com\<close>, which is left as it is, give header score 0, HTTPS score 0, no
  bonus, score 0 and grade F.
\<close>

theorem X1_scenario_no_headers_http:
  "\<exists>r. AnalyzeURL (\<lambda>url. Inr noHeaders) ''http://example.com'' = (Some r, None) \<and>
     URL r = ''http://example.com'' \<and>
     headerScore 110 (achievedWeightOf noHeaders) = 0 \<and> httpsScore (URL r) = 0 \<and>
     countCriticalHeaders (Summary r) = 0 \<and> countImportantHeaders (Summary r) = 0 \<and>
     Score r = 0 \<and> Grade r = ''F''"
proof -
  let ?url = "''http://example.com''"
  let ?r = "scoreResponse noHeaders ?url"
  have run: "AnalyzeURL (\<lambda>url. Inr noHeaders) ?url = (Some ?r, None)"
    using AnalyzeURL_ok [of "\<lambda>url. Inr noHeaders" ?url noHeaders]
    by (simp add: normalizeURL_examples)
  have achieved: "achievedWeightOf noHeaders = 0"
    by (simp add: achievedWeightOf_zip presences)
  have critical: "presentCount criticalHeaders noHeaders = 0"
    by (simp add: presentCount_zip presences catalog_names criticalHeaders_def)
  have important: "presentCount importantHeaders noHeaders = 0"
    by (simp add: presentCount_zip presences catalog_names importantHeaders_def)
  have hs: "headerScore 110 (achievedWeightOf noHeaders) = 0"
    by (simp add: achieved headerScore_110)
  have https: "httpsScore ?url = 0"
    by (simp add: httpsScore_def HasPrefix_def)
  have raw: "rawScore noHeaders ?url = 0"
    by (simp add: rawScore_eq hs https critical important bonusAdded_def)
  have score: "Score ?r = 0"
    by (simp add: scoreResponse_Score raw)
  have grade: "Grade ?r = ''F''"
    by (simp add: scoreResponse_Grade score calculateGrade_def)
  have counts: "countCriticalHeaders (Summary ?r) = 0" "countImportantHeaders (Summary ?r) = 0"
    by (simp_all add: scoreResponse_Summary count_catalog critical important)
  show ?thesis
    using run hs https counts score grade by (simp add: scoreResponse_URL)
qed

text \<open>
  X2. Scenario D of the specification: only \<^verbatim>\<open>Referrer-Policy\<close> present, over HTTPS, gives
  achieved weight 15, header score 9, HTTPS score 30, no critical bonus, an important
  bonus of 2, score 41 and grade D.
\<close>

theorem X2_scenario_referrer_policy_only:
  "\<exists>r. AnalyzeURL (\<lambda>url. Inr referrerOnly) ''https://example.com'' = (Some r, None) \<and>
     achievedWeightOf referrerOnly = 15 \<and> headerScore 110 15 = 9 \<and> httpsScore (URL r) = 30 \<and>
     countCriticalHeaders (Summary r) = 0 \<and>
     countImportantHeaders (Summary r) = 1 \<and> importantBonus 1 = 2 \<and>
     Score r = 41 \<and> Grade r = ''D''"
proof -
  let ?url = "''https://example.com''"
  let ?r = "scoreResponse referrerOnly ?url"
  have run: "AnalyzeURL (\<lambda>url. Inr referrerOnly) ?url = (Some ?r, None)"
    using AnalyzeURL_ok [of "\<lambda>url. Inr referrerOnly" ?url referrerOnly]
    by (simp add: normalizeURL_examples)
  have achieved: "achievedWeightOf referrerOnly = 15"
    by (simp add: achievedWeightOf_zip presences)
  have critical: "presentCount criticalHeaders referrerOnly = 0"
    by (simp add: presentCount_zip presences catalog_names criticalHeaders_def)
  have important: "presentCount importantHeaders referrerOnly = 1"
    by (simp add: presentCount_zip presences catalog_names importantHeaders_def)
  have hs: "headerScore 110 15 = 9"
    by (simp add: headerScore_110)
  have https: "httpsScore ?url = 30"
    by (simp add: httpsScore_def HasPrefix_def)
  have ib: "importantBonus 1 = 2"
    by (simp add: importantBonus_eq)
  have raw: "rawScore referrerOnly ?url = 41"
    by (simp add: rawScore_eq achieved hs https critical important bonusAdded_def ib)
  have score: "Score ?r = 41"
    by (simp add: scoreResponse_Score raw)
  have grade: "Grade ?r = ''D''"
    by (simp add: scoreResponse_Grade score calculateGrade_def)
  have counts: "countCriticalHeaders (Summary ?r) = 0" "countImportantHeaders (Summary ?r) = 1"
    by (simp_all add: scoreResponse_Summary count_catalog critical important)
  show ?thesis
    using run achieved hs https counts ib score grade by (simp add: scoreResponse_URL)
qed

text \<open>
  X3. Scenario A of the specification: all eight catalog headers present, over HTTPS,
  give header score 70, HTTPS score 30, a critical bonus of 10 and an important bonus of
  5, so a sum of 115, capped to the score 100, and grade A.
\<close>

theorem X3_scenario_all_headers:
  "\<exists>r. AnalyzeURL (\<lambda>url. Inr allHeaders) ''https://example.com'' = (Some r, None) \<and>
     headerScore 110 (achievedWeightOf allHeaders) = 70 \<and> httpsScore (URL r) = 30 \<and>
     countCriticalHeaders (Summary r) = 3 \<and> criticalBonus 3 = 10 \<and>
     countImportantHeaders (Summary r) = 2 \<and> importantBonus 2 = 5 \<and>
     rawScore allHeaders (URL r) = 115 \<and> Score r = 100 \<and> Grade r = ''A''"
proof -
  let ?url = "''https://example.com''"
  let ?r = "scoreResponse allHeaders ?url"
  have run: "AnalyzeURL (\<lambda>url. Inr allHeaders) ?url = (Some ?r, None)"
    using AnalyzeURL_ok [of "\<lambda>url. Inr allHeaders" ?url allHeaders]
    by (simp add: normalizeURL_examples)
  have achieved: "achievedWeightOf allHeaders = 110"
    by (simp add: achievedWeightOf_zip presences)
  have critical: "presentCount criticalHeaders allHeaders = 3"
    by (simp add: presentCount_zip presences catalog_names criticalHeaders_def)
  have important: "presentCount importantHeaders allHeaders = 2"
    by (simp add: presentCount_zip presences catalog_names importantHeaders_def)
  have hs: "headerScore 110 (achievedWeightOf allHeaders) = 70"
    by (simp add: achieved headerScore_110)
  have https: "httpsScore ?url = 30"
    by (simp add: httpsScore_def HasPrefix_def)
  have cb: "criticalBonus 3 = 10" and ib: "importantBonus 2 = 5"
    by (simp_all add: criticalBonus_eq importantBonus_eq)
  have raw: "rawScore allHeaders ?url = 115"
    by (simp add: rawScore_eq hs https critical important bonusAdded_def cb ib)
  have score: "Score ?r = 100"
    by (simp add: scoreResponse_Score raw)
  have grade: "Grade ?r = ''A''"
    by (simp add: scoreResponse_Grade score calculateGrade_def)
  have counts: "countCriticalHeaders (Summary ?r) = 3" "countImportantHeaders (Summary ?r) = 2"
    by (simp_all add: scoreResponse_Summary count_catalog critical important)
  show ?thesis
    using run hs https counts cb ib raw score grade by (simp add: scoreResponse_URL)
qed

text \<open>
  X4. Alias equivalence: a response that holds a non-empty first value under
  \<^verbatim>\<open>Content-Security-Policy-Report-Only\<close> has the entry \<^verbatim>\<open>Content-Security-Policy\<close>
  present, whether or not it holds the canonical name; likewise \<^verbatim>\<open>Feature-Policy\<close>
  stands for \<^verbatim>\<open>Permissions-Policy\<close>.
\<close>

theorem X4_alias_equivalence:
  "(Header resp ''Content-Security-Policy-Report-Only'' = Some (v # vs) \<and> v \<noteq> '''' \<longrightarrow>
      Name (securityHeaders ! 3) = ''Content-Security-Policy'' \<and>
      isHeaderPresent resp (securityHeaders ! 3)) \<and>
   (Header resp ''Feature-Policy'' = Some (v # vs) \<and> v \<noteq> '''' \<longrightarrow>
      Name (securityHeaders ! 5) = ''Permissions-Policy'' \<and>
      isHeaderPresent resp (securityHeaders ! 5))"
proof -
  have keys: "CanonicalMIMEHeaderKey ''Content-Security-Policy-Report-Only'' =
      ''Content-Security-Policy-Report-Only''"
    "CanonicalMIMEHeaderKey ''Feature-Policy'' = ''Feature-Policy''"
    by code_simp+
  have aliases: "Aliases (securityHeaders ! 3) = [''Content-Security-Policy-Report-Only'']"
    "Aliases (securityHeaders ! 5) = [''Feature-Policy'']"
    "Name (securityHeaders ! 3) = ''Content-Security-Policy''"
    "Name (securityHeaders ! 5) = ''Permissions-Policy''"
    by (simp_all add: securityHeaders_def)
  show ?thesis
    by (simp add: aliases isHeaderPresent_iff Header_Get_nonempty keys)
qed

theorem X4_alias_equivalence_witness:
  "isHeaderPresent \<lparr>Header = [''Content-Security-Policy-Report-Only'' \<mapsto> [''default-src'']]\<rparr>
     (securityHeaders ! 3) \<and>
   isHeaderPresent \<lparr>Header = [''Feature-Policy'' \<mapsto> [''camera none'']]\<rparr> (securityHeaders ! 5)"
  using X4_alias_equivalence
      [of "\<lparr>Header = [''Content-Security-Policy-Report-Only'' \<mapsto> [''default-src'']]\<rparr>"
        "''default-src''" "[]"]
    X4_alias_equivalence
      [of "\<lparr>Header = [''Feature-Policy'' \<mapsto> [''camera none'']]\<rparr>" "''camera none''" "[]"]
  by simp

text \<open>
  X5. For every response the loop over the catalog ends with the total weight 110, the
  sum of the eight weights, and an achieved weight between 0 and 110, so the header
  score lies between 0 and 70.
\<close>

theorem X5_weights_and_header_score:
  "fst (snd (headerLoop resp securityHeaders (newResult url, 0, 0))) = 110 \<and>
   snd (snd (headerLoop resp securityHeaders (newResult url, 0, 0))) = achievedWeightOf resp \<and>
   0 \<le> achievedWeightOf resp \<and> achievedWeightOf resp \<le> 110 \<and>
   0 \<le> headerScore 110 (achievedWeightOf resp) \<and> headerScore 110 (achievedWeightOf resp) \<le> 70"
  using achievedWeightOf_nonneg [of resp] achievedWeightOf_le [of resp]
  by (simp add: headerLoop_catalog headerScore_nonneg headerScore_le)

end
